theory Spec2Isabelle
  imports
    Complex_Main
    "HOL-Library.Char_ord"
    "HOL-Library.List_Lexorder"
    "HOL-Library.Product_Lexorder"
    "HOL-Library.Multiset"
    "HOL-Library.Sublist"
    "HOL-Library.AList"
begin

section \<open>Values of the task document\<close>

text \<open>
  The hooks read \<^verbatim>\<open>harness-tasks.json\<close> with \<^verbatim>\<open>json.load\<close> and work on the decoded
  Python values: \<^verbatim>\<open>None\<close>, booleans, integers, floats, strings, lists and dicts with
  string keys. A float is a finite value (a rational number), negative zero, an infinity
  or not-a-number. A dict is an association list in insertion order; \<^verbatim>\<open>d.get(k)\<close>
  reads the first pair with key \<open>k\<close>, \<^verbatim>\<open>d[k] = v\<close> is \<^const>\<open>AList.update\<close> (in place
  when the key exists, at the end otherwise) and \<^verbatim>\<open>d.pop(k, None)\<close> is
  \<^const>\<open>AList.delete\<close>. Strings are lists of 8-bit characters, read as the UTF-8
  encoding of the Python string (the lexicographic order on UTF-8 bytes is the order on
  code points that Python compares by).
\<close>

datatype pyfloat = Finite rat | NegZero | PosInf | NegInf | NaN

datatype json =
    JNull
  | JBool bool
  | JInt int
  | JFloat pyfloat
  | JStr string
  | JList "json list"
  | JDict "(string \<times> json) list"

type_synonym pydict = "(string \<times> json) list"

datatype py_error =
    ValueError
  | JSONDecodeError
  | UnicodeDecodeError
  | TypeError
  | OverflowError
  | FileNotFoundError
  | NotADirectoryError
  | IsADirectoryError

text \<open>\<^verbatim>\<open>isinstance(e, ValueError)\<close>: the two decoding errors are subclasses of
  \<^verbatim>\<open>ValueError\<close>.\<close>

definition is_ValueError :: "py_error \<Rightarrow> bool" where
  "is_ValueError e = (e = ValueError \<or> e = JSONDecodeError \<or> e = UnicodeDecodeError)"

text \<open>\<^verbatim>\<open>d.get(k, default)\<close>; \<^verbatim>\<open>d.get(k)\<close> is \<open>dict_get d k JNull\<close>.\<close>

definition dict_get :: "pydict \<Rightarrow> string \<Rightarrow> json \<Rightarrow> json" where
  "dict_get d k dflt = (case map_of d k of None \<Rightarrow> dflt | Some v \<Rightarrow> v)"

text \<open>Python truthiness, as used by \<^verbatim>\<open>x or y\<close>, \<^verbatim>\<open>if x\<close> and \<^verbatim>\<open>not x\<close>.\<close>

fun truthy :: "json \<Rightarrow> bool" where
  "truthy JNull = False"
| "truthy (JBool b) = b"
| "truthy (JInt i) = (i \<noteq> 0)"
| "truthy (JFloat x) = (x \<noteq> Finite 0 \<and> x \<noteq> NegZero)"
| "truthy (JStr s) = (s \<noteq> [])"
| "truthy (JList xs) = (xs \<noteq> [])"
| "truthy (JDict kvs) = (kvs \<noteq> [])"

definition py_or :: "json \<Rightarrow> json \<Rightarrow> json" where
  "py_or x y = (if truthy x then x else y)"

section \<open>The Python library\<close>

text \<open>
  What the hooks call in the Python library on text is a parameter of the model, one
  record for all of it: \<^verbatim>\<open>str.strip\<close>, \<^verbatim>\<open>int\<close> of a string (\<open>None\<close> where it raises
  \<^verbatim>\<open>ValueError\<close>), \<^verbatim>\<open>repr\<close> of a string, \<^verbatim>\<open>str\<close> of a float,
  \<^verbatim>\<open>datetime.fromisoformat\<close> (\<open>None\<close> where it raises; otherwise the wall-clock reading
  of the text in microseconds since the epoch, with the UTC offset it carries, if any),
  \<^verbatim>\<open>json.loads\<close> (which raises \<^verbatim>\<open>JSONDecodeError\<close> or \<^verbatim>\<open>UnicodeDecodeError\<close>) and
  \<^verbatim>\<open>json.dumps\<close> with the options of \<^verbatim>\<open>atomic_write_json\<close>. Every theorem about the
  code holds for every such library.
\<close>

record pylib =
  str_strip :: "string \<Rightarrow> string"
  int_of_str :: "string \<Rightarrow> int option"
  repr_of_str :: "string \<Rightarrow> string"
  str_of_float :: "pyfloat \<Rightarrow> string"
  fromisoformat :: "string \<Rightarrow> (int \<times> int option) option"
  json_loads :: "string \<Rightarrow> py_error + json"
  json_dumps :: "json \<Rightarrow> string"

subsection \<open>\<^verbatim>\<open>str\<close> and \<^verbatim>\<open>repr\<close>\<close>

fun digits10 :: "nat \<Rightarrow> string" where
  "digits10 n =
     (if n < 10 then [char_of (48 + n)]
      else digits10 (n div 10) @ [char_of (48 + n mod 10)])"

declare digits10.simps [simp del]

definition str_int :: "int \<Rightarrow> string" where
  "str_int i = (if i < 0 then CHR ''-'' # digits10 (nat (- i)) else digits10 (nat i))"

fun join :: "string \<Rightarrow> string list \<Rightarrow> string" where
  "join sep [] = []"
| "join sep [x] = x"
| "join sep (x # y # ys) = x @ sep @ join sep (y # ys)"

text \<open>\<^verbatim>\<open>repr\<close> of a decoded value; the library gives it for a string and for a float.\<close>

fun py_repr :: "pylib \<Rightarrow> json \<Rightarrow> string" where
  "py_repr L JNull = ''None''"
| "py_repr L (JBool b) = (if b then ''True'' else ''False'')"
| "py_repr L (JInt i) = str_int i"
| "py_repr L (JFloat x) = str_of_float L x"
| "py_repr L (JStr s) = repr_of_str L s"
| "py_repr L (JList xs) = ''['' @ join '', '' (map (py_repr L) xs) @ '']''"
| "py_repr L (JDict kvs) =
     ''{'' @ join '', '' (map (\<lambda>kv. repr_of_str L (fst kv) @ '': '' @ py_repr L (snd kv)) kvs)
     @ ''}''"

text \<open>\<^verbatim>\<open>str(v)\<close>, also what an f-string writes for \<^verbatim>\<open>{v}\<close>.\<close>

fun py_str :: "pylib \<Rightarrow> json \<Rightarrow> string" where
  "py_str L (JStr s) = s"
| "py_str L v = py_repr L v"

subsection \<open>\<^verbatim>\<open>int\<close>\<close>

text \<open>\<^verbatim>\<open>int(x)\<close> of a float truncates towards zero; it raises \<^verbatim>\<open>ValueError\<close> for
  not-a-number and \<^verbatim>\<open>OverflowError\<close> for an infinity.\<close>

fun int_of_float :: "pyfloat \<Rightarrow> int option" where
  "int_of_float (Finite q) = Some (if 0 \<le> q then \<lfloor>q\<rfloor> else \<lceil>q\<rceil>)"
| "int_of_float NegZero = Some 0"
| "int_of_float PosInf = None"
| "int_of_float NegInf = None"
| "int_of_float NaN = None"

text \<open>\<^verbatim>\<open>int(v)\<close>; \<open>None\<close> is the exception it raises (\<^verbatim>\<open>TypeError\<close>, \<^verbatim>\<open>ValueError\<close> or
  \<^verbatim>\<open>OverflowError\<close>), which every caller catches with \<^verbatim>\<open>except Exception\<close>.\<close>

fun py_int :: "pylib \<Rightarrow> json \<Rightarrow> int option" where
  "py_int L (JInt i) = Some i"
| "py_int L (JBool b) = Some (if b then 1 else 0)"
| "py_int L (JFloat x) = int_of_float x"
| "py_int L (JStr s) = int_of_str L s"
| "py_int L JNull = None"
| "py_int L (JList xs) = None"
| "py_int L (JDict kvs) = None"

section \<open>Task helpers\<close>

type_synonym task = pydict

definition priority_rank :: "pylib \<Rightarrow> json \<Rightarrow> int" where
  "priority_rank L v =
     (let s = py_str L (py_or v (JStr []))
      in if s = ''P0'' then 0 else if s = ''P1'' then 1 else if s = ''P2'' then 2 else 9)"

definition task_attempts :: "pylib \<Rightarrow> task \<Rightarrow> int" where
  "task_attempts L t =
     (case py_int L (py_or (dict_get t ''attempts'' JNull) (JInt 0)) of
        Some n \<Rightarrow> n
      | None \<Rightarrow> 0)"

definition task_max_attempts :: "pylib \<Rightarrow> task \<Rightarrow> int" where
  "task_max_attempts L t =
     (let v = dict_get t ''max_attempts'' JNull
      in if v = JNull then 3
         else (case py_int L v of Some n \<Rightarrow> n | None \<Rightarrow> 3))"

definition deps_completed :: "pylib \<Rightarrow> task \<Rightarrow> string set \<Rightarrow> bool" where
  "deps_completed L t done =
     (case py_or (dict_get t ''depends_on'' JNull) (JList []) of
        JList deps \<Rightarrow> (\<forall>d \<in> set deps. py_str L d \<in> done)
      | _ \<Rightarrow> False)"

text \<open>The expressions \<^verbatim>\<open>str(t.get("status", ""))\<close> and \<^verbatim>\<open>str(t.get("id", ""))\<close> that the
  helpers below share.\<close>

definition task_status :: "pylib \<Rightarrow> task \<Rightarrow> string" where
  "task_status L t = py_str L (dict_get t ''status'' (JStr []))"

definition task_id :: "pylib \<Rightarrow> task \<Rightarrow> string" where
  "task_id L t = py_str L (dict_get t ''id'' (JStr []))"

definition completed_ids :: "pylib \<Rightarrow> task list \<Rightarrow> string set" where
  "completed_ids L tasks =
     set (map (task_id L) (filter (\<lambda>t. task_status L t = ''completed'') tasks))"

text \<open>The sort key of \<^verbatim>\<open>eligible_tasks\<close>: the pair (priority rank, id), compared as
  Python compares tuples.\<close>

definition key :: "pylib \<Rightarrow> task \<Rightarrow> int \<times> string" where
  "key L t = (priority_rank L (dict_get t ''priority'' JNull), task_id L t)"

text \<open>\<^verbatim>\<open>list.sort(key=key)\<close> is stable, as \<^const>\<open>sort_key\<close> is.\<close>

definition eligible_tasks :: "pylib \<Rightarrow> task list \<Rightarrow> task list \<times> task list" where
  "eligible_tasks L tasks =
     (let done = completed_ids L tasks;
          pending = filter (\<lambda>t. task_status L t = ''pending'' \<and> deps_completed L t done) tasks;
          retry = filter (\<lambda>t. task_status L t = ''failed''
                              \<and> task_attempts L t < task_max_attempts L t
                              \<and> deps_completed L t done) tasks
      in (sort_key (key L) pending, sort_key (key L) retry))"

definition pick_next :: "task list \<Rightarrow> task list \<Rightarrow> task option" where
  "pick_next pending retry =
     (case pending of
        p # _ \<Rightarrow> Some p
      | [] \<Rightarrow> (case retry of r # _ \<Rightarrow> Some r | [] \<Rightarrow> None))"

section \<open>Time helpers\<close>

text \<open>
  A point in time is the number of microseconds since the epoch, in UTC. A
  \<^verbatim>\<open>datetime\<close> lies between the first microsecond of year 1 and the last of year 9999.
  \<^verbatim>\<open>parse_iso\<close> catches what \<^verbatim>\<open>fromisoformat\<close> raises, reads a reading without offset
  as UTC, and converts a reading with an offset to UTC with \<^verbatim>\<open>astimezone\<close>, outside the
  \<^verbatim>\<open>try\<close>: the subtraction of the offset raises \<^verbatim>\<open>OverflowError\<close> when the result leaves
  the range of \<^verbatim>\<open>datetime\<close>.
\<close>

type_synonym instant = int

definition datetime_min :: instant where
  "datetime_min = - 62135596800000000"

definition datetime_max :: instant where
  "datetime_max = 253402300799999999"

definition parse_iso :: "pylib \<Rightarrow> json \<Rightarrow> py_error + instant option" where
  "parse_iso L ts =
     (case ts of
        JStr raw \<Rightarrow>
          if str_strip L raw = [] then Inr None
          else
            (let s = str_strip L raw;
                 s' = (if last s = CHR ''Z'' then butlast s @ ''+00:00'' else s)
             in case fromisoformat L s' of
                  None \<Rightarrow> Inr None
                | Some (wall, None) \<Rightarrow> Inr (Some wall)
                | Some (wall, Some offset) \<Rightarrow>
                    if wall - offset < datetime_min \<or> datetime_max < wall - offset
                    then Inl OverflowError
                    else Inr (Some (wall - offset)))
      | _ \<Rightarrow> Inr None)"

section \<open>Lease reaping\<close>

text \<open>
  The body of the loop of \<^verbatim>\<open>reap_stale_leases\<close> for one task: the exception that leaves
  the loop, or the task after the iteration and whether the iteration set \<^verbatim>\<open>changed\<close>.
\<close>

definition reap_task :: "pylib \<Rightarrow> instant \<Rightarrow> task \<Rightarrow> py_error + task \<times> bool" where
  "reap_task L now t =
     (if task_status L t \<noteq> ''in_progress'' then Inr (t, False)
      else
        case parse_iso L (dict_get t ''lease_expires_at'' JNull) of
          Inl err \<Rightarrow> Inl err
        | Inr None \<Rightarrow> Inr (t, False)
        | Inr (Some expiry) \<Rightarrow>
            if expiry > now then Inr (t, False)
            else
              (let t1 = AList.update ''attempts'' (JInt (task_attempts L t + 1)) t;
                   err = ''[SESSION_TIMEOUT] Lease expired (claimed_by=''
                           @ py_str L (dict_get t1 ''claimed_by'' JNull) @ '')'';
                   t2 = (case dict_get t1 ''error_log'' JNull of
                           JList entries \<Rightarrow>
                             AList.update ''error_log'' (JList (entries @ [JStr err])) t1
                         | _ \<Rightarrow> AList.update ''error_log'' (JList [JStr err]) t1);
                   t3 = AList.update ''status'' (JStr ''failed'') t2;
                   t4 = AList.delete ''claimed_by'' t3;
                   t5 = AList.delete ''lease_expires_at'' t4;
                   t6 = AList.delete ''claimed_at'' t5
               in Inr (t6, True)))"

text \<open>
  The loop mutates the tasks in place and returns \<^verbatim>\<open>changed\<close>. The model returns the
  tasks as the call leaves them with either \<^verbatim>\<open>changed\<close> or the exception that ended the
  loop: the tasks before the one that raised have been visited, that one and the ones
  after it are as they were. (The tasks of a decoded document are distinct objects.)
\<close>

fun reap_stale_leases :: "pylib \<Rightarrow> task list \<Rightarrow> instant \<Rightarrow> (py_error + bool) \<times> task list" where
  "reap_stale_leases L [] now = (Inr False, [])"
| "reap_stale_leases L (t # ts) now =
     (case reap_task L now t of
        Inl err \<Rightarrow> (Inl err, t # ts)
      | Inr (t', c) \<Rightarrow>
          (case reap_stale_leases L ts now of
             (Inl err, ts') \<Rightarrow> (Inl err, t' # ts')
           | (Inr cs, ts') \<Rightarrow> (Inr (c \<or> cs), t' # ts')))"

section \<open>The filesystem\<close>

text \<open>
  A path is the list of its components below the filesystem root; the filesystem maps a
  path to the regular file (with its text) or the directory that stands there. The root
  is a directory. There are no symbolic links and no permissions.
\<close>

type_synonym path = "string list"

datatype node = File string | Dir

type_synonym fs = "path \<rightharpoonup> node"

definition node_at :: "fs \<Rightarrow> path \<Rightarrow> node option" where
  "node_at files p = (if p = [] then Some Dir else files p)"

text \<open>
  How the system resolves the components of an absolute path, as \<^verbatim>\<open>pathlib\<close> hands them
  over (names and \<^verbatim>\<open>..\<close>): each step starts in a directory.
\<close>

fun os_walk :: "fs \<Rightarrow> path \<Rightarrow> string list \<Rightarrow> py_error + path" where
  "os_walk files cur [] = Inr cur"
| "os_walk files cur (c # cs) =
     (case node_at files cur of
        None \<Rightarrow> Inl FileNotFoundError
      | Some (File _) \<Rightarrow> Inl NotADirectoryError
      | Some Dir \<Rightarrow>
          if c = ''..'' then os_walk files (butlast cur) cs
          else os_walk files (cur @ [c]) cs)"

definition stat :: "fs \<Rightarrow> string list \<Rightarrow> py_error + path \<times> node" where
  "stat files p =
     (case os_walk files [] p of
        Inl err \<Rightarrow> Inl err
      | Inr q \<Rightarrow> (case node_at files q of None \<Rightarrow> Inl FileNotFoundError | Some n \<Rightarrow> Inr (q, n)))"

text \<open>\<^verbatim>\<open>Path.is_file\<close>: false also when the path cannot be resolved.\<close>

definition is_file :: "fs \<Rightarrow> string list \<Rightarrow> bool" where
  "is_file files p = (case stat files p of Inr (_, File _) \<Rightarrow> True | _ \<Rightarrow> False)"

text \<open>Reading the text of a file (\<^verbatim>\<open>open\<close> for reading, \<^verbatim>\<open>Path.read_text\<close>).\<close>

definition read_text :: "fs \<Rightarrow> string list \<Rightarrow> py_error + string" where
  "read_text files p =
     (case stat files p of
        Inl err \<Rightarrow> Inl err
      | Inr (_, Dir) \<Rightarrow> Inl IsADirectoryError
      | Inr (_, File body) \<Rightarrow> Inr body)"

text \<open>Writing a file (\<^verbatim>\<open>Path.write_text\<close>): the file is created or replaced in an
  existing directory.\<close>

definition write_text :: "fs \<Rightarrow> string list \<Rightarrow> string \<Rightarrow> (py_error + unit) \<times> fs" where
  "write_text files p body =
     (case os_walk files [] p of
        Inl err \<Rightarrow> (Inl err, files)
      | Inr q \<Rightarrow>
          (case node_at files q of
             Some Dir \<Rightarrow> (Inl IsADirectoryError, files)
           | _ \<Rightarrow> (Inr (), files(q \<mapsto> File body))))"

section \<open>JSON I/O\<close>

text \<open>\<^verbatim>\<open>load_json\<close>: opening the file, decoding it (the decoding errors are subclasses of
  \<^verbatim>\<open>ValueError\<close>), and the check that the document is an object.\<close>

definition load_json :: "pylib \<Rightarrow> fs \<Rightarrow> string list \<Rightarrow> py_error + pydict" where
  "load_json L files p =
     (case read_text files p of
        Inl err \<Rightarrow> Inl err
      | Inr body \<Rightarrow>
          (case json_loads L body of
             Inl err \<Rightarrow> Inl err
           | Inr (JDict d) \<Rightarrow> Inr d
           | Inr _ \<Rightarrow> Inl ValueError))"

text \<open>\<^verbatim>\<open>path.with_name(path.name + ext)\<close>; a path without a final component has an
  empty name, and \<^verbatim>\<open>with_name\<close> raises.\<close>

definition with_suffix :: "string list \<Rightarrow> string \<Rightarrow> py_error + string list" where
  "with_suffix p ext =
     (if p = [] then Inl ValueError else Inr (butlast p @ [last p @ ext]))"

text \<open>Where \<^verbatim>\<open>shutil.copy2(src, dst)\<close> writes: into \<open>dst\<close> under the name of the source
  when \<open>dst\<close> is a directory, to \<open>dst\<close> otherwise.\<close>

definition copy_target :: "fs \<Rightarrow> string list \<Rightarrow> string \<Rightarrow> string list" where
  "copy_target files dst name =
     (case stat files dst of Inr (_, Dir) \<Rightarrow> dst @ [name] | _ \<Rightarrow> dst)"

text \<open>\<^verbatim>\<open>os.replace(src, dst)\<close> for a regular file \<open>src\<close>.\<close>

definition os_replace :: "fs \<Rightarrow> string list \<Rightarrow> string list \<Rightarrow> (py_error + unit) \<times> fs" where
  "os_replace files src dst =
     (case stat files src of
        Inl err \<Rightarrow> (Inl err, files)
      | Inr (_, Dir) \<Rightarrow> (Inl IsADirectoryError, files)
      | Inr (qs, File body) \<Rightarrow>
          (case os_walk files [] dst of
             Inl err \<Rightarrow> (Inl err, files)
           | Inr qd \<Rightarrow>
               (case node_at files qd of
                  Some Dir \<Rightarrow> (Inl IsADirectoryError, files)
                | _ \<Rightarrow> (Inr (), (files(qs := None))(qd \<mapsto> File body)))))"

text \<open>
  \<^verbatim>\<open>atomic_write_json\<close>: the result and the filesystem afterwards. The copy of the
  previous file comes first and raises when it cannot read one; then the temporary file
  is written and moved over the document.
\<close>

definition atomic_write_json ::
    "pylib \<Rightarrow> fs \<Rightarrow> string list \<Rightarrow> pydict \<Rightarrow> (py_error + unit) \<times> fs" where
  "atomic_write_json L files p data =
     (case with_suffix p ''.bak'' of
        Inl err \<Rightarrow> (Inl err, files)
      | Inr bak \<Rightarrow>
          (case with_suffix p ''.tmp'' of
             Inl err \<Rightarrow> (Inl err, files)
           | Inr tmp \<Rightarrow>
               (case read_text files p of
                  Inl err \<Rightarrow> (Inl err, files)
                | Inr previous \<Rightarrow>
                    (case write_text files (copy_target files bak (last p)) previous of
                       (Inl err, files1) \<Rightarrow> (Inl err, files1)
                     | (Inr _, files1) \<Rightarrow>
                         (case write_text files1 tmp (json_dumps L (JDict data) @ [CHR 0x0A]) of
                            (Inl err, files2) \<Rightarrow> (Inl err, files2)
                          | (Inr _, files2) \<Rightarrow> os_replace files2 tmp p)))))"

text \<open>The dict entries of a list, in order: \<^verbatim>\<open>[t for t in tasks_raw if isinstance(t, dict)]\<close>.\<close>

fun dicts_of :: "json list \<Rightarrow> pydict list" where
  "dicts_of [] = []"
| "dicts_of (JDict d # xs) = d # dicts_of xs"
| "dicts_of (x # xs) = dicts_of xs"

definition parse_tasks :: "pydict \<Rightarrow> py_error + task list" where
  "parse_tasks state =
     (case py_or (dict_get state ''tasks'' JNull) (JList []) of
        JList tasks_raw \<Rightarrow> Inr (dicts_of tasks_raw)
      | _ \<Rightarrow> Inl ValueError)"

section \<open>State root discovery\<close>

text \<open>
  The environment of one invocation of a hook: the environment variables, the working
  directory of the process and the directory of temporary files (both resolved paths).
\<close>

record hook_env =
  environ :: "string \<rightharpoonup> string"
  getcwd :: path
  gettempdir :: path

fun split_on :: "char \<Rightarrow> string \<Rightarrow> string list" where
  "split_on c [] = [[]]"
| "split_on c (x # xs) =
     (if x = c then [] # split_on c xs
      else (case split_on c xs of
              w # ws \<Rightarrow> (x # w) # ws
            | [] \<Rightarrow> [[x]]))"

text \<open>The components that \<^verbatim>\<open>pathlib\<close> keeps of a path text: it drops empty components
  and \<^verbatim>\<open>.\<close>, and keeps \<^verbatim>\<open>..\<close>.\<close>

definition names :: "string \<Rightarrow> string list" where
  "names s = filter (\<lambda>c. c \<noteq> [] \<and> c \<noteq> ''.'') (split_on (CHR ''/'') s)"

text \<open>\<^verbatim>\<open>Path(s)\<close> as the system sees it: a relative path starts at the working directory.\<close>

definition parts :: "hook_env \<Rightarrow> string \<Rightarrow> string list" where
  "parts e s = (if s \<noteq> [] \<and> hd s = CHR ''/'' then names s else getcwd e @ names s)"

text \<open>\<^verbatim>\<open>Path.resolve()\<close>: without symbolic links it only removes \<^verbatim>\<open>..\<close> with the
  component before it, whether or not the path exists.\<close>

fun walk :: "path \<Rightarrow> string list \<Rightarrow> path" where
  "walk base [] = base"
| "walk base (c # cs) =
     (if c = ''..'' then walk (butlast base) cs else walk (base @ [c]) cs)"

definition resolve :: "string list \<Rightarrow> path" where
  "resolve p = walk [] p"

text \<open>\<^verbatim>\<open>[base, *list(base.parents)[:8]]\<close>: the directory and its nearest eight ancestors.\<close>

definition lineage :: "path \<Rightarrow> path list" where
  "lineage base = base # take 8 (map (\<lambda>k. take k base) (rev [0..<length base]))"

text \<open>
  \<^verbatim>\<open>find_harness_root\<close>. The state root of the environment is tested as it is written
  and returned resolved; the candidates are resolved before the search. \<^verbatim>\<open>Path(cwd)\<close>
  raises \<^verbatim>\<open>TypeError\<close> for a \<^verbatim>\<open>cwd\<close> in the payload that is neither falsy nor a string.
  (The set \<^verbatim>\<open>seen\<close> only skips a base that was searched already.)
\<close>

definition find_harness_root :: "hook_env \<Rightarrow> fs \<Rightarrow> pydict \<Rightarrow> py_error + path option" where
  "find_harness_root e files payload =
     (let env_root = (case environ e ''HARNESS_STATE_ROOT'' of None \<Rightarrow> [] | Some r \<Rightarrow> r)
      in if env_root \<noteq> [] \<and> is_file files (parts e env_root @ [''harness-tasks.json''])
         then Inr (Some (resolve (parts e env_root)))
         else
           (let env_dir = (case environ e ''CLAUDE_PROJECT_DIR'' of None \<Rightarrow> [] | Some d \<Rightarrow> d);
                candidates = (if env_dir \<noteq> [] then [resolve (parts e env_dir)] else []);
                cwd = dict_get payload ''cwd'' JNull
            in case (if truthy cwd
                     then (case cwd of JStr s \<Rightarrow> Inr (resolve (parts e s)) | _ \<Rightarrow> Inl TypeError)
                     else Inr (getcwd e)) of
                 Inl err \<Rightarrow> Inl err
               | Inr c \<Rightarrow>
                   Inr (find (\<lambda>parent. is_file files (parent @ [''harness-tasks.json'']))
                          (concat (map lineage (candidates @ [c]))))))"

section \<open>The self-reflection stop hook\<close>

text \<open>\<^verbatim>\<open>_read_payload\<close>: the payload on standard input, or the empty dict when the input
  is blank, does not decode, or decodes to something that is not a dict.\<close>

definition read_payload :: "pylib \<Rightarrow> string \<Rightarrow> pydict" where
  "read_payload L raw =
     (if str_strip L raw = [] then []
      else (case json_loads L raw of Inr (JDict d) \<Rightarrow> d | _ \<Rightarrow> []))"

text \<open>\<^verbatim>\<open>_counter_path\<close>: the file \<^verbatim>\<open>claude-reflect-<session_id>\<close> in the directory of
  temporary files.\<close>

definition counter_path :: "hook_env \<Rightarrow> pylib \<Rightarrow> json \<Rightarrow> string list" where
  "counter_path e L session_id =
     gettempdir e @ names (''claude-reflect-'' @ py_str L session_id)"

text \<open>\<^verbatim>\<open>_read_counter\<close>: the first line of the stripped text of the counter file as an
  integer; 0 when the file cannot be read or its text is no integer.\<close>

definition read_counter :: "hook_env \<Rightarrow> pylib \<Rightarrow> fs \<Rightarrow> json \<Rightarrow> int" where
  "read_counter e L files session_id =
     (case read_text files (counter_path e L session_id) of
        Inl _ \<Rightarrow> 0
      | Inr body \<Rightarrow>
          (case int_of_str L (takeWhile (\<lambda>c. c \<noteq> CHR 0x0A) (str_strip L body)) of
             None \<Rightarrow> 0
           | Some n \<Rightarrow> n))"

text \<open>\<^verbatim>\<open>_write_counter\<close>: a write that fails leaves the filesystem as it was, and the
  source ignores the error.\<close>

definition write_counter :: "hook_env \<Rightarrow> pylib \<Rightarrow> fs \<Rightarrow> json \<Rightarrow> int \<Rightarrow> fs" where
  "write_counter e L files session_id cnt =
     snd (write_text files (counter_path e L session_id) (str_int cnt))"

text \<open>
  The fixed texts of the block reason, as the UTF-8 bytes of the source's literals:
  the header up to the iteration number (\<^verbatim>\<open>[Self-Reflect]\<close> and the word for
  iteration), the rest of the header after \<^verbatim>\<open>k/max\<close> (the request to check before
  going on), the label that precedes the original request, and the checklist of five
  points with its closing sentence.
\<close>

definition header_prefix :: string where
  "header_prefix = map char_of
     ([0x5B, 0x53, 0x65, 0x6C, 0x66, 0x2D, 0x52, 0x65, 0x66, 0x6C, 0x65, 0x63, 0x74, 0x5D, 0x20,
      0xE8, 0xBF, 0xAD, 0xE4, 0xBB, 0xA3, 0x20]
      :: nat list)"

definition header_suffix :: string where
  "header_suffix = map char_of
     ([0x20, 0xE2, 0x80, 0x94, 0x20, 0xE8, 0xAF, 0xB7, 0xE5, 0x9C, 0xA8, 0xE7, 0xBB, 0xA7, 0xE7,
      0xBB, 0xAD, 0xE4, 0xB9, 0x8B, 0xE5, 0x89, 0x8D, 0xE8, 0xBF, 0x9B, 0xE8, 0xA1, 0x8C, 0xE8,
      0x87, 0xAA, 0xE7, 0x9C, 0x81, 0xE6, 0xA3, 0x80, 0xE6, 0x9F, 0xA5, 0xEF, 0xBC, 0x9A]
      :: nat list)"

definition prompt_label :: string where
  "prompt_label = map char_of
     ([0x0A, 0xF0, 0x9F, 0x93, 0x8B, 0x20, 0xE5, 0x8E, 0x9F, 0xE5, 0xA7, 0x8B, 0xE8, 0xAF, 0xB7,
      0xE6, 0xB1, 0x82, 0xEF, 0xBC, 0x9A, 0x0A]
      :: nat list)"

definition checklist :: string where
  "checklist = map char_of
     ([0x0A, 0xF0, 0x9F, 0x94, 0x8D, 0x20, 0xE8, 0x87, 0xAA, 0xE7, 0x9C, 0x81, 0xE6, 0xB8, 0x85,
      0xE5, 0x8D, 0x95, 0xEF, 0xBC, 0x9A, 0x0A, 0x31, 0x2E, 0x20, 0xE5, 0xAF, 0xB9, 0xE7, 0x85,
      0xA7, 0xE5, 0x8E, 0x9F, 0xE5, 0xA7, 0x8B, 0xE8, 0xAF, 0xB7, 0xE6, 0xB1, 0x82, 0xEF, 0xBC,
      0x8C, 0xE9, 0x80, 0x90, 0xE9, 0xA1, 0xB9, 0xE7, 0xA1, 0xAE, 0xE8, 0xAE, 0xA4, 0xE6, 0xAF,
      0x8F, 0xE4, 0xB8, 0xAA, 0xE9, 0x9C, 0x80, 0xE6, 0xB1, 0x82, 0xE7, 0x82, 0xB9, 0xE6, 0x98,
      0xAF, 0xE5, 0x90, 0xA6, 0xE5, 0xB7, 0xB2, 0xE5, 0xAE, 0x8C, 0xE6, 0x95, 0xB4, 0xE5, 0xAE,
      0x9E, 0xE7, 0x8E, 0xB0, 0x0A, 0x32, 0x2E, 0x20, 0xE6, 0xA3, 0x80, 0xE6, 0x9F, 0xA5, 0xE6,
      0x98, 0xAF, 0xE5, 0x90, 0xA6, 0xE6, 0x9C, 0x89, 0xE9, 0x81, 0x97, 0xE6, 0xBC, 0x8F, 0xE7,
      0x9A, 0x84, 0xE8, 0xBE, 0xB9, 0xE7, 0x95, 0x8C, 0xE6, 0x83, 0x85, 0xE5, 0x86, 0xB5, 0xE3,
      0x80, 0x81, 0xE9, 0x94, 0x99, 0xE8, 0xAF, 0xAF, 0xE5, 0xA4, 0x84, 0xE7, 0x90, 0x86, 0xE6,
      0x88, 0x96, 0xE5, 0xBC, 0x82, 0xE5, 0xB8, 0xB8, 0xE5, 0x9C, 0xBA, 0xE6, 0x99, 0xAF, 0x0A,
      0x33, 0x2E, 0x20, 0xE4, 0xBB, 0xA3, 0xE7, 0xA0, 0x81, 0xE8, 0xB4, 0xA8, 0xE9, 0x87, 0x8F,
      0xEF, 0xBC, 0x9A, 0xE6, 0x98, 0xAF, 0xE5, 0x90, 0xA6, 0xE6, 0x9C, 0x89, 0xE5, 0x8F, 0xAF,
      0xE4, 0xBB, 0xA5, 0xE6, 0x94, 0xB9, 0xE8, 0xBF, 0x9B, 0xE7, 0x9A, 0x84, 0xE5, 0x9C, 0xB0,
      0xE6, 0x96, 0xB9, 0xEF, 0xBC, 0x88, 0xE5, 0x8F, 0xAF, 0xE8, 0xAF, 0xBB, 0xE6, 0x80, 0xA7,
      0xE3, 0x80, 0x81, 0xE6, 0x80, 0xA7, 0xE8, 0x83, 0xBD, 0xE3, 0x80, 0x81, 0xE5, 0xAE, 0x89,
      0xE5, 0x85, 0xA8, 0xE6, 0x80, 0xA7, 0xEF, 0xBC, 0x89, 0x0A, 0x34, 0x2E, 0x20, 0xE6, 0x98,
      0xAF, 0xE5, 0x90, 0xA6, 0xE9, 0x9C, 0x80, 0xE8, 0xA6, 0x81, 0xE8, 0xA1, 0xA5, 0xE5, 0x85,
      0x85, 0xE6, 0xB5, 0x8B, 0xE8, 0xAF, 0x95, 0xE6, 0x88, 0x96, 0xE6, 0x96, 0x87, 0xE6, 0xA1,
      0xA3, 0x0A, 0x35, 0x2E, 0x20, 0xE6, 0x9C, 0x80, 0xE7, 0xBB, 0x88, 0xE7, 0xA1, 0xAE, 0xE8,
      0xAE, 0xA4, 0xEF, 0xBC, 0x9A, 0xE6, 0x89, 0x80, 0xE6, 0x9C, 0x89, 0xE6, 0x94, 0xB9, 0xE5,
      0x8A, 0xA8, 0xE6, 0x98, 0xAF, 0xE5, 0x90, 0xA6, 0xE4, 0xB8, 0x80, 0xE8, 0x87, 0xB4, 0xE4,
      0xB8, 0x94, 0xE4, 0xB8, 0x8D, 0xE4, 0xBA, 0x92, 0xE7, 0x9B, 0xB8, 0xE5, 0x86, 0xB2, 0xE7,
      0xAA, 0x81, 0x0A, 0x0A, 0xE5, 0xA6, 0x82, 0xE6, 0x9E, 0x9C, 0xE4, 0xB8, 0x80, 0xE5, 0x88,
      0x87, 0xE5, 0xB7, 0xB2, 0xE5, 0xAE, 0x8C, 0xE6, 0x88, 0x90, 0xEF, 0xBC, 0x8C, 0xE7, 0xAE,
      0x80, 0xE8, 0xA6, 0x81, 0xE6, 0x80, 0xBB, 0xE7, 0xBB, 0x93, 0xE6, 0x88, 0x90, 0xE6, 0x9E,
      0x9C, 0xE5, 0x8D, 0xB3, 0xE5, 0x8F, 0xAF, 0xE7, 0xBB, 0x93, 0xE6, 0x9D, 0x9F, 0xE3, 0x80,
      0x82, 0xE5, 0xA6, 0x82, 0xE6, 0x9E, 0x9C, 0xE5, 0x8F, 0x91, 0xE7, 0x8E, 0xB0, 0xE9, 0x97,
      0xAE, 0xE9, 0xA2, 0x98, 0xEF, 0xBC, 0x8C, 0xE7, 0xBB, 0xA7, 0xE7, 0xBB, 0xAD, 0xE4, 0xBF,
      0xAE, 0xE5, 0xA4, 0x8D, 0xE3, 0x80, 0x82]
      :: nat list)"

definition DEFAULT_MAX_ITERATIONS :: int where
  "DEFAULT_MAX_ITERATIONS = 5"

definition block_decision :: "string \<Rightarrow> json" where
  "block_decision reason = JDict [(''decision'', JStr ''block''), (''reason'', JStr reason)]"

text \<open>
  Whether \<^verbatim>\<open>if last_message and len(last_message) > 3000: last_message =
  last_message[:3000] + "..."\<close> raises: \<^verbatim>\<open>len\<close> of a number or of \<^verbatim>\<open>True\<close>, and the
  slice or the concatenation for a list or a dict with more than 3000 entries
  (\<^verbatim>\<open>TypeError\<close>; for the dict, \<^verbatim>\<open>KeyError\<close> from Python 3.12 on).
\<close>

definition truncation_raises :: "json \<Rightarrow> bool" where
  "truncation_raises v =
     (truthy v \<and>
      (case v of
         JStr _ \<Rightarrow> False
       | JList xs \<Rightarrow> length xs > 3000
       | JDict kvs \<Rightarrow> length (remdups (map fst kvs)) > 3000
       | _ \<Rightarrow> True))"

text \<open>
  \<^verbatim>\<open>main\<close> of \<^verbatim>\<open>self-reflect-stop.py\<close>: what it prints (\<open>None\<close> when it prints nothing) or
  the exception that ends it, and the filesystem afterwards. The exit code is 0 on every
  path that returns. \<^verbatim>\<open>_extract_original_prompt\<close> reads the transcript, never raises,
  and is a parameter, \<open>extract\<close>.
\<close>

definition main ::
    "hook_env \<Rightarrow> pylib \<Rightarrow> (fs \<Rightarrow> json \<Rightarrow> string) \<Rightarrow> string \<Rightarrow> fs
       \<Rightarrow> (py_error + json option) \<times> fs" where
  "main e L extract stdin files =
     (let payload = read_payload L stdin;
          session_id = dict_get payload ''session_id'' (JStr [])
      in if \<not> truthy session_id then (Inr None, files)
         else
           case find_harness_root e files payload of
             Inl err \<Rightarrow> (Inl err, files)
           | Inr None \<Rightarrow> (Inr None, files)
           | Inr (Some harness_root) \<Rightarrow>
               if is_file files (harness_root @ [''.harness-active'']) then (Inr None, files)
               else
                 (let max_iter =
                        (case environ e ''REFLECT_MAX_ITERATIONS'' of
                           None \<Rightarrow> DEFAULT_MAX_ITERATIONS
                         | Some v \<Rightarrow>
                             (case int_of_str L v of
                                None \<Rightarrow> DEFAULT_MAX_ITERATIONS
                              | Some n \<Rightarrow> n))
                  in if max_iter \<le> 0 then (Inr None, files)
                     else
                       (let cnt = read_counter e L files session_id
                        in if cnt \<ge> max_iter then (Inr None, files)
                           else
                             (let files' = write_counter e L files session_id (cnt + 1);
                                  original_prompt =
                                    extract files' (dict_get payload ''transcript_path'' (JStr []));
                                  last_message =
                                    dict_get payload ''last_assistant_message'' (JStr [])
                              in if truncation_raises last_message then (Inl TypeError, files')
                                 else
                                   (let lines =
                                          [header_prefix @ str_int (cnt + 1) @ ''/''
                                             @ str_int max_iter @ header_suffix]
                                          @ (if original_prompt \<noteq> []
                                             then [prompt_label @ original_prompt] else [])
                                          @ [checklist];
                                        reason = join [CHR 0x0A] lines
                                    in (Inr (Some (block_decision reason)), files'))))))"

text \<open>Successive invocations of the hook with the same input, each on the filesystem the
  previous one left: the outputs in order, and the filesystem at the end.\<close>

fun invocations ::
    "nat \<Rightarrow> hook_env \<Rightarrow> pylib \<Rightarrow> (fs \<Rightarrow> json \<Rightarrow> string) \<Rightarrow> string \<Rightarrow> fs
       \<Rightarrow> (py_error + json option) list \<times> fs" where
  "invocations 0 e L extract stdin files = ([], files)"
| "invocations (Suc n) e L extract stdin files =
     (let (out, files') = main e L extract stdin files;
          (outs, files'') = invocations n e L extract stdin files'
      in (out # outs, files''))"

section \<open>The termination safety valve\<close>

text \<open>
  Modelled from the spec: the stop hook \<^verbatim>\<open>harness-stop.py\<close>, which keeps the counter of
  consecutive blocks in \<^verbatim>\<open>.harness-stop-counter\<close>, is not among the sources; only its
  tests are. The state machine below follows section 4.5 of the specification: the state
  is the pair (consecutive blocks, last completed count); below the threshold a block
  decision increments the counter when the completed count is unchanged, and sets it to 1
  and records the new count when the count has increased; at or above the threshold an
  invocation that carries the host's re-entrancy signal is allowed unconditionally.
  \<open>otherwise\<close> is what the task logic decides for the invocation.
\<close>

datatype decision = Allow | Block

record valve =
  consecutive_blocks :: nat
  last_completed_count :: nat

definition valve_step :: "nat \<Rightarrow> bool \<Rightarrow> nat \<Rightarrow> decision \<Rightarrow> valve \<Rightarrow> decision \<times> valve" where
  "valve_step threshold reentrant completed otherwise v =
     (if consecutive_blocks v \<ge> threshold \<and> reentrant then (Allow, v)
      else
        (case otherwise of
           Allow \<Rightarrow> (Allow, v)
         | Block \<Rightarrow>
             if completed > last_completed_count v
             then (Block, \<lparr>consecutive_blocks = 1, last_completed_count = completed\<rparr>)
             else (Block, v\<lparr>consecutive_blocks := consecutive_blocks v + 1\<rparr>)))"

text \<open>A run of invocations, each given as (re-entrancy signal, completed count, what the
  task logic decides): the decisions in order and the state at the end.\<close>

fun valve_run ::
    "nat \<Rightarrow> (bool \<times> nat \<times> decision) list \<Rightarrow> valve \<Rightarrow> decision list \<times> valve" where
  "valve_run threshold [] v = ([], v)"
| "valve_run threshold ((reentrant, completed, otherwise) # rest) v =
     (let (d, v') = valve_step threshold reentrant completed otherwise v;
          (ds, v'') = valve_run threshold rest v'
      in (d # ds, v''))"

section \<open>The vocabulary of the properties\<close>

subsection \<open>Tasks as the data model types them\<close>

text \<open>
  The data model of the specification gives a task a string \<^verbatim>\<open>id\<close>, a string
  \<^verbatim>\<open>status\<close>, an optional list \<^verbatim>\<open>depends_on\<close> of ids, and optional integers \<^verbatim>\<open>attempts\<close>
  and \<^verbatim>\<open>max_attempts\<close>; an optional field is absent or \<^verbatim>\<open>null\<close>. The readers below take
  the fields of such a task straight from the document, without the conversions of the
  code: no dependencies and no attempts when the field is not there, and a maximum of 3.
\<close>

definition well_typed :: "task \<Rightarrow> bool" where
  "well_typed t =
     ((case map_of t ''id'' of Some (JStr _) \<Rightarrow> True | _ \<Rightarrow> False)
      \<and> (case map_of t ''status'' of Some (JStr _) \<Rightarrow> True | _ \<Rightarrow> False)
      \<and> (case map_of t ''depends_on'' of
            None \<Rightarrow> True
          | Some JNull \<Rightarrow> True
          | Some (JList deps) \<Rightarrow> list_all (\<lambda>d. case d of JStr _ \<Rightarrow> True | _ \<Rightarrow> False) deps
          | _ \<Rightarrow> False)
      \<and> (case map_of t ''attempts'' of
            None \<Rightarrow> True | Some JNull \<Rightarrow> True | Some (JInt _) \<Rightarrow> True | _ \<Rightarrow> False)
      \<and> (case map_of t ''max_attempts'' of
            None \<Rightarrow> True | Some JNull \<Rightarrow> True | Some (JInt _) \<Rightarrow> True | _ \<Rightarrow> False))"




definition attempts_of :: "task \<Rightarrow> int" where
  "attempts_of t = (case map_of t ''attempts'' of Some (JInt n) \<Rightarrow> n | _ \<Rightarrow> 0)"








subsection \<open>Leases\<close>

text \<open>
  The instant at which the lease of a task ends, read from the document: the field
  \<^verbatim>\<open>lease_expires_at\<close> must hold a string whose stripped text, with a final \<^verbatim>\<open>Z\<close> read
  as the offset \<^verbatim>\<open>+00:00\<close>, is a timestamp for the library; the instant is the reading
  less its offset. \<open>lease_due\<close>: the task is in progress and its lease ends at or before
  \<open>now\<close>.
\<close>

definition lease_end :: "pylib \<Rightarrow> task \<Rightarrow> instant option" where
  "lease_end L t =
     (case map_of t ''lease_expires_at'' of
        Some (JStr raw) \<Rightarrow>
          (let s = str_strip L raw
           in if s = [] then None
              else
                (case fromisoformat L (if last s = CHR ''Z'' then butlast s @ ''+00:00'' else s) of
                   None \<Rightarrow> None
                 | Some (wall, offset) \<Rightarrow>
                     Some (wall - (case offset of None \<Rightarrow> 0 | Some d \<Rightarrow> d))))
      | _ \<Rightarrow> None)"

definition lease_due :: "pylib \<Rightarrow> instant \<Rightarrow> task \<Rightarrow> bool" where
  "lease_due L now t =
     (map_of t ''status'' = Some (JStr ''in_progress'')
      \<and> (case lease_end L t of None \<Rightarrow> False | Some expiry \<Rightarrow> expiry \<le> now))"

text \<open>A lease whose instant in UTC lies outside the range of \<^verbatim>\<open>datetime\<close>.\<close>

definition lease_out_of_range :: "pylib \<Rightarrow> task \<Rightarrow> bool" where
  "lease_out_of_range L t =
     (case lease_end L t of
        None \<Rightarrow> False
      | Some expiry \<Rightarrow> expiry < datetime_min \<or> datetime_max < expiry)"

text \<open>The entries of a task's \<^verbatim>\<open>error_log\<close>; a field that is absent or not a list has
  none.\<close>

definition error_log_of :: "task \<Rightarrow> json list" where
  "error_log_of t = (case map_of t ''error_log'' of Some (JList entries) \<Rightarrow> entries | _ \<Rightarrow> [])"

definition timeout_message :: "string \<Rightarrow> string" where
  "timeout_message holder = ''[SESSION_TIMEOUT] Lease expired (claimed_by='' @ holder @ '')''"

text \<open>The holder of a task as the message names it: the text of \<^verbatim>\<open>claimed_by\<close>, and
  \<^verbatim>\<open>None\<close> for a task without one.\<close>

definition holder_of :: "pylib \<Rightarrow> task \<Rightarrow> string" where
  "holder_of L t =
     (case map_of t ''claimed_by'' of
        None \<Rightarrow> ''None''
      | Some (JStr s) \<Rightarrow> s
      | Some v \<Rightarrow> py_repr L v)"

text \<open>The fields of a task after its lease has been reaped: status \<^verbatim>\<open>failed\<close>, the
  attempts plus one, the timeout message naming the holder at the end of the
  \<^verbatim>\<open>error_log\<close>, no \<^verbatim>\<open>claimed_by\<close>, \<^verbatim>\<open>lease_expires_at\<close> and \<^verbatim>\<open>claimed_at\<close>, and every
  other field as it was.\<close>

definition reaped :: "pylib \<Rightarrow> task \<Rightarrow> string \<rightharpoonup> json" where
  "reaped L t =
     (map_of t)
       (''attempts'' \<mapsto> JInt (attempts_of t + 1),
        ''error_log'' \<mapsto> JList (error_log_of t @ [JStr (timeout_message (holder_of L t))]),
        ''status'' \<mapsto> JStr ''failed'',
        ''claimed_by'' := None, ''lease_expires_at'' := None, ''claimed_at'' := None)"

subsection \<open>The reflection hook\<close>

text \<open>The reason of the block decision for iteration \<open>k\<close> of \<open>m\<close>.\<close>

definition reflect_reason :: "int \<Rightarrow> int \<Rightarrow> string \<Rightarrow> string" where
  "reflect_reason k m original_prompt =
     join [CHR 0x0A]
       ([header_prefix @ str_int k @ ''/'' @ str_int m @ header_suffix]
        @ (if original_prompt \<noteq> [] then [prompt_label @ original_prompt] else [])
        @ [checklist])"

section \<open>Examples\<close>

subsection \<open>A library for the examples\<close>

text \<open>
  An instance of the library for the examples below, as far as the examples reach. It
  strips ASCII whitespace, reads ASCII decimal literals, knows three timestamps and no
  other text, decodes three documents and no other text, and writes the empty object,
  the only document that an example saves, as \<^verbatim>\<open>{}\<close>; its \<^verbatim>\<open>repr\<close> of a string and its text
  of a float are stand-ins that no example reaches.
\<close>

definition ascii_space :: "char \<Rightarrow> bool" where
  "ascii_space c = (c \<in> set [CHR 0x20, CHR 0x09, CHR 0x0A, CHR 0x0B, CHR 0x0C, CHR 0x0D])"

definition ascii_strip :: "string \<Rightarrow> string" where
  "ascii_strip s = rev (dropWhile ascii_space (rev (dropWhile ascii_space s)))"

definition ascii_digit :: "char \<Rightarrow> bool" where
  "ascii_digit c = (48 \<le> (of_char c :: nat) \<and> (of_char c :: nat) \<le> 57)"

fun ascii_digits :: "nat \<Rightarrow> bool \<Rightarrow> string \<Rightarrow> nat option" where
  "ascii_digits acc prev [] = (if prev then Some acc else None)"
| "ascii_digits acc prev (c # cs) =
     (if ascii_digit c then ascii_digits (acc * 10 + (of_char c - 48)) True cs
      else if c = CHR ''_'' \<and> prev then ascii_digits acc False cs
      else None)"

definition ascii_int :: "string \<Rightarrow> int option" where
  "ascii_int s =
     (case ascii_strip s of
        [] \<Rightarrow> None
      | c # cs \<Rightarrow>
          if c = CHR ''-'' then map_option (\<lambda>n. - int n) (ascii_digits 0 False cs)
          else if c = CHR ''+'' then map_option int (ascii_digits 0 False cs)
          else map_option int (ascii_digits 0 False (c # cs)))"

definition example_parser :: "string \<Rightarrow> (int \<times> int option) option" where
  "example_parser s =
     (if s = ''2024-01-01T00:00:00+00:00'' then Some (1704067200000000, Some 0)
      else if s = ''2030-01-01T00:00:00+00:00'' then Some (1893456000000000, Some 0)
      else if s = ''0001-01-01T00:00:00+01:00'' then Some (- 62135596800000000, Some 3600000000)
      else None)"

definition example_payload :: pydict where
  "example_payload = [(''cwd'', JStr ''/proj''), (''session_id'', JStr ''s1'')]"

definition example_stdin :: string where
  "example_stdin = ''{'' @ [CHR 0x22] @ ''cwd'' @ [CHR 0x22] @ '': '' @ [CHR 0x22] @ ''/proj''
     @ [CHR 0x22] @ '', '' @ [CHR 0x22] @ ''session_id'' @ [CHR 0x22] @ '': '' @ [CHR 0x22]
     @ ''s1'' @ [CHR 0x22] @ ''}''"

definition example_loads :: "string \<Rightarrow> py_error + json" where
  "example_loads s =
     (if s = example_stdin then Inr (JDict example_payload)
      else if s = ''[]'' then Inr (JList [])
      else if s = ''{}'' then Inr (JDict [])
      else Inl JSONDecodeError)"

definition example_lib :: pylib where
  "example_lib =
     \<lparr>str_strip = ascii_strip,
      int_of_str = ascii_int,
      repr_of_str = (\<lambda>s. s),
      str_of_float = (\<lambda>x. []),
      fromisoformat = example_parser,
      json_loads = example_loads,
      json_dumps = (\<lambda>v. ''{}'')\<rparr>"

subsection \<open>Task lists\<close>

text \<open>The tasks of the end-to-end scenarios of the specification.\<close>

definition scenario_failed :: task where
  "scenario_failed =
     [(''id'', JStr ''t1''), (''status'', JStr ''failed''), (''attempts'', JInt 1),
      (''max_attempts'', JInt 3)]"

definition scenario_blocked :: task where
  "scenario_blocked =
     [(''id'', JStr ''t2''), (''status'', JStr ''pending''), (''depends_on'', JList [JStr ''t1''])]"

definition scenario_low :: task where
  "scenario_low =
     [(''id'', JStr ''t1''), (''priority'', JStr ''P2''), (''status'', JStr ''pending''),
      (''depends_on'', JList [])]"

definition scenario_high :: task where
  "scenario_high =
     [(''id'', JStr ''t2''), (''priority'', JStr ''P0''), (''status'', JStr ''pending''),
      (''depends_on'', JList [])]"














subsection \<open>Leases\<close>

text \<open>
  Tasks for lease reaping, seen at midnight of 2026-01-01 (UTC): a task in progress whose
  lease ended in 2024, one whose lease ends in 2030, one whose lease is no timestamp, one
  without a lease, a pending task that still carries a lease of 2024, and a task in
  progress whose lease is the first instant of year 1 at the offset \<^verbatim>\<open>+01:00\<close>, an hour
  before the first instant that a \<^verbatim>\<open>datetime\<close> holds. \<open>lease_reaped_task\<close> is the first
  task after reaping.
\<close>

definition lease_now :: instant where
  "lease_now = 1767225600000000"

definition lease_expired_task :: task where
  "lease_expired_task =
     [(''id'', JStr ''t1''), (''status'', JStr ''in_progress''), (''attempts'', JInt 1),
      (''claimed_by'', JStr ''worker-a''), (''claimed_at'', JStr ''2023-12-31T23:00:00Z''),
      (''lease_expires_at'', JStr ''2024-01-01T00:00:00Z''), (''title'', JStr ''Build''),
      (''error_log'', JList [JStr ''boom''])]"

definition lease_reaped_task :: task where
  "lease_reaped_task =
     [(''id'', JStr ''t1''), (''status'', JStr ''failed''), (''attempts'', JInt 2),
      (''title'', JStr ''Build''),
      (''error_log'',
       JList [JStr ''boom'', JStr ''[SESSION_TIMEOUT] Lease expired (claimed_by=worker-a)''])]"

definition lease_future_task :: task where
  "lease_future_task =
     [(''id'', JStr ''t2''), (''status'', JStr ''in_progress''), (''claimed_by'', JStr ''worker-b''),
      (''lease_expires_at'', JStr ''2030-01-01T00:00:00Z'')]"

definition lease_garbled_task :: task where
  "lease_garbled_task =
     [(''id'', JStr ''t3''), (''status'', JStr ''in_progress''), (''claimed_by'', JStr ''worker-c''),
      (''lease_expires_at'', JStr ''soon'')]"

definition lease_absent_task :: task where
  "lease_absent_task =
     [(''id'', JStr ''t4''), (''status'', JStr ''in_progress''), (''claimed_by'', JStr ''worker-d'')]"

definition lease_idle_task :: task where
  "lease_idle_task =
     [(''id'', JStr ''t5''), (''status'', JStr ''pending''),
      (''lease_expires_at'', JStr ''2024-01-01T00:00:00Z'')]"

definition lease_overflow_task :: task where
  "lease_overflow_task =
     [(''id'', JStr ''t6''), (''status'', JStr ''in_progress''), (''claimed_by'', JStr ''worker-e''),
      (''lease_expires_at'', JStr ''0001-01-01T00:00:00+01:00'')]"

subsection \<open>The store\<close>

text \<open>A project directory whose task document is the text \<^verbatim>\<open>[]\<close>, which the library of
  the examples decodes to the empty list, beside a file whose text \<^verbatim>\<open>{\<close> is no JSON
  document.\<close>

definition example_document :: "string list" where
  "example_document = [''proj'', ''harness-tasks.json'']"

definition example_files :: fs where
  "example_files =
     [[''proj''] \<mapsto> Dir, example_document \<mapsto> File ''[]'',
      [''proj'', ''broken.json''] \<mapsto> File ''{'']"

subsection \<open>The reflection hook\<close>

text \<open>
  A session \<^verbatim>\<open>s1\<close> working in \<^verbatim>\<open>/proj\<close>, with no environment variable set and no
  transcript. In \<open>stale_files\<close> the project holds only a task document left by an earlier
  run; in \<open>drained_files\<close> it also holds the marker \<^verbatim>\<open>.harness-reflect\<close>. In
  \<open>example_disabled\<close> the maximum of iterations is set to 0.
\<close>

definition example_env :: hook_env where
  "example_env = \<lparr>environ = Map.empty, getcwd = [''srv''], gettempdir = [''tmp'']\<rparr>"

definition example_disabled :: hook_env where
  "example_disabled =
     \<lparr>environ = [''REFLECT_MAX_ITERATIONS'' \<mapsto> ''0''], getcwd = [''srv''],
      gettempdir = [''tmp'']\<rparr>"

definition example_extract :: "fs \<Rightarrow> json \<Rightarrow> string" where
  "example_extract files transcript_path = []"

definition reflect_marker :: "string list" where
  "reflect_marker = [''proj'', ''.harness-reflect'']"

definition stale_files :: fs where
  "stale_files =
     [[''proj''] \<mapsto> Dir, [''tmp''] \<mapsto> Dir, [''proj'', ''harness-tasks.json''] \<mapsto> File ''{}'']"

definition drained_files :: fs where
  "drained_files = stale_files(reflect_marker \<mapsto> File [])"

section \<open>Eligibility\<close>

subsection \<open>The code's readers on typed tasks\<close>



lemma typed_attempts: "well_typed t \<Longrightarrow> task_attempts L t = attempts_of t"
  by (auto simp: well_typed_def task_attempts_def attempts_of_def dict_get_def py_or_def
           split: option.splits json.splits)










lemma scenario_eligible:
  "eligible_tasks L [scenario_failed, scenario_blocked] = ([], [scenario_failed])"
  by (simp add: eligible_tasks_def scenario_failed_def scenario_blocked_def completed_ids_def
        task_status_def task_id_def dict_get_def deps_completed_def py_or_def
        task_attempts_def task_max_attempts_def)





section \<open>Choosing the next task\<close>

lemma pending_status: "t \<in> set (fst (eligible_tasks L ts)) \<Longrightarrow> task_status L t = ''pending''"
  by (simp add: eligible_tasks_def Let_def)

lemma retry_status: "t \<in> set (snd (eligible_tasks L ts)) \<Longrightarrow> task_status L t = ''failed''"
  by (simp add: eligible_tasks_def Let_def)

text \<open>
  Claim C2. \<^verbatim>\<open>pick_next\<close> returns the head of the pending-ready list whenever that list
  is not empty, the head of the retry-ready list only when the pending-ready list is
  empty, and nothing when both are empty; on the lists of \<^verbatim>\<open>eligible_tasks\<close> the task
  chosen while a pending-ready task exists is pending-ready and not retry-ready. For the
  scenario of a retryable t1 and a pending t2 that depends on it, the lists are \<open>[]\<close> and
  \<open>[t1]\<close>, and the next task is t1.
\<close>

theorem pick_next_prefers_pending:
  "(pending \<noteq> [] \<longrightarrow> pick_next pending retry = Some (hd pending))
   \<and> (pending = [] \<and> retry \<noteq> [] \<longrightarrow> pick_next pending retry = Some (hd retry))
   \<and> (pending = [] \<and> retry = [] \<longrightarrow> pick_next pending retry = None)
   \<and> (fst (eligible_tasks L ts) \<noteq> [] \<longrightarrow>
        (\<exists>t. pick_next (fst (eligible_tasks L ts)) (snd (eligible_tasks L ts)) = Some t
             \<and> t \<in> set (fst (eligible_tasks L ts)) \<and> t \<notin> set (snd (eligible_tasks L ts))))
   \<and> eligible_tasks L [scenario_failed, scenario_blocked] = ([], [scenario_failed])
   \<and> pick_next (fst (eligible_tasks L [scenario_failed, scenario_blocked]))
        (snd (eligible_tasks L [scenario_failed, scenario_blocked])) = Some scenario_failed"
proof -
  have a: "pending \<noteq> [] \<longrightarrow> pick_next pending retry = Some (hd pending)"
    by (cases pending) (simp_all add: pick_next_def)
  have b: "pending = [] \<and> retry \<noteq> [] \<longrightarrow> pick_next pending retry = Some (hd retry)"
    by (cases retry) (simp_all add: pick_next_def)
  have c: "pending = [] \<and> retry = [] \<longrightarrow> pick_next pending retry = None"
    by (simp add: pick_next_def)
  have d: "fst (eligible_tasks L ts) \<noteq> [] \<longrightarrow>
        (\<exists>t. pick_next (fst (eligible_tasks L ts)) (snd (eligible_tasks L ts)) = Some t
             \<and> t \<in> set (fst (eligible_tasks L ts)) \<and> t \<notin> set (snd (eligible_tasks L ts)))"
  proof
    assume "fst (eligible_tasks L ts) \<noteq> []"
    then obtain p ps where p: "fst (eligible_tasks L ts) = p # ps"
      by (cases "fst (eligible_tasks L ts)") auto
    then have "p \<in> set (fst (eligible_tasks L ts))" by simp
    then have "task_status L p = ''pending''" by (rule pending_status)
    then have "p \<notin> set (snd (eligible_tasks L ts))"
      using retry_status [of p L ts] by auto
    then show "\<exists>t. pick_next (fst (eligible_tasks L ts)) (snd (eligible_tasks L ts)) = Some t
             \<and> t \<in> set (fst (eligible_tasks L ts)) \<and> t \<notin> set (snd (eligible_tasks L ts))"
      using p by (simp add: pick_next_def)
  qed
  have e: "eligible_tasks L [scenario_failed, scenario_blocked] = ([], [scenario_failed])"
    by (rule scenario_eligible)
  have f: "pick_next (fst (eligible_tasks L [scenario_failed, scenario_blocked]))
        (snd (eligible_tasks L [scenario_failed, scenario_blocked])) = Some scenario_failed"
    by (simp add: scenario_eligible pick_next_def)
  from a b c d e f show ?thesis by blast
qed

theorem pick_next_prefers_pending_witness:
  "[scenario_high] \<noteq> []
   \<and> pick_next [scenario_high] [scenario_failed] = Some scenario_high
   \<and> pick_next [] [scenario_failed] = Some scenario_failed
   \<and> pick_next [] [] = None
   \<and> fst (eligible_tasks example_lib [scenario_low, scenario_high]) \<noteq> []
   \<and> (\<exists>t. pick_next (fst (eligible_tasks example_lib [scenario_low, scenario_high]))
              (snd (eligible_tasks example_lib [scenario_low, scenario_high])) = Some t
          \<and> t \<in> set (fst (eligible_tasks example_lib [scenario_low, scenario_high])))"
proof -
  have ne: "fst (eligible_tasks example_lib [scenario_low, scenario_high]) \<noteq> []"
    by (simp add: eligible_tasks_def scenario_low_def scenario_high_def completed_ids_def
          task_status_def dict_get_def deps_completed_def py_or_def)
  from pick_next_prefers_pending [of "[scenario_high]" "[scenario_failed]" example_lib
         "[scenario_low, scenario_high]"]
       pick_next_prefers_pending [of "[]" "[scenario_failed]" example_lib "[]"]
       pick_next_prefers_pending [of "[]" "[]" example_lib "[]"]
       ne
  show ?thesis by auto
qed

section \<open>Ordering\<close>


















section \<open>Properties of lease reaping\<close>

subsection \<open>Leases in the range of \<^verbatim>\<open>datetime\<close>\<close>

text \<open>\<^verbatim>\<open>parse_iso\<close> raises only for a lease whose instant is out of range, and otherwise
  returns the end of the lease.\<close>

lemma parse_iso_cases:
  "parse_iso L (dict_get t ''lease_expires_at'' JNull)
     = (if lease_out_of_range L t
           \<and> (\<exists>raw wall offset. map_of t ''lease_expires_at'' = Some (JStr raw)
                 \<and> fromisoformat L
                       (if last (str_strip L raw) = CHR ''Z''
                        then butlast (str_strip L raw) @ ''+00:00'' else str_strip L raw)
                     = Some (wall, Some offset))
        then Inl OverflowError else Inr (lease_end L t))"
proof (cases "map_of t ''lease_expires_at''")
  case None
  then show ?thesis
    by (simp add: dict_get_def parse_iso_def lease_end_def lease_out_of_range_def)
next
  case (Some v)
  show ?thesis
  proof (cases v)
    case (JStr raw)
    let ?s = "str_strip L raw"
    let ?s' = "if last ?s = CHR ''Z'' then butlast ?s @ ''+00:00'' else ?s"
    show ?thesis
    proof (cases "?s = []")
      case True
      then show ?thesis
        using Some JStr
        by (simp add: dict_get_def parse_iso_def lease_end_def lease_out_of_range_def)
    next
      case False
      show ?thesis
      proof (cases "fromisoformat L ?s'")
        case None
        then show ?thesis
          using Some JStr False
          by (simp add: dict_get_def parse_iso_def lease_end_def lease_out_of_range_def Let_def)
      next
        case (Some reading)
        obtain wall offset where reading: "reading = (wall, offset)"
          by (cases reading) auto
        show ?thesis
        proof (cases offset)
          case None
          then show ?thesis
            using \<open>map_of t ''lease_expires_at'' = Some v\<close> JStr False Some reading
            by (simp add: dict_get_def parse_iso_def lease_end_def Let_def)
        next
          case (Some d)
          then show ?thesis
            using \<open>map_of t ''lease_expires_at'' = Some v\<close> JStr False
              \<open>fromisoformat L ?s' = Some reading\<close> reading
            by (simp add: dict_get_def parse_iso_def lease_end_def lease_out_of_range_def
                  Let_def)
        qed
      qed
    qed
  qed (use Some in \<open>simp_all add: dict_get_def parse_iso_def lease_end_def
         lease_out_of_range_def\<close>)
qed

lemma parse_iso_lease:
  "\<not> lease_out_of_range L t \<Longrightarrow>
     parse_iso L (dict_get t ''lease_expires_at'' JNull) = Inr (lease_end L t)"
  by (simp add: parse_iso_cases)

lemma parse_iso_raises:
  "parse_iso L (dict_get t ''lease_expires_at'' JNull) = Inl err \<Longrightarrow>
     err = OverflowError \<and> lease_out_of_range L t"
  by (simp add: parse_iso_cases split: if_splits)

lemma typed_in_progress:
  "well_typed t \<Longrightarrow>
     task_status L t = ''in_progress'' \<longleftrightarrow> map_of t ''status'' = Some (JStr ''in_progress'')"
  by (auto simp: well_typed_def task_status_def dict_get_def split: option.splits json.splits)

lemma reap_task_not_due:
  assumes "well_typed t" and "\<not> lease_out_of_range L t" and "\<not> lease_due L now t"
  shows "reap_task L now t = Inr (t, False)"
  using assms(2,3)
  by (auto simp: reap_task_def typed_in_progress [OF assms(1)] parse_iso_lease lease_due_def
           split: option.splits)

text \<open>The fields of a task whose lease is due, after the iteration.\<close>

lemma reap_task_due:
  assumes "well_typed t" and "\<not> lease_out_of_range L t" and "lease_due L now t"
  shows "\<exists>t'. reap_task L now t = Inr (t', True) \<and> map_of t' = reaped L t"
proof -
  from assms(3) obtain expiry where e: "lease_end L t = Some expiry" "expiry \<le> now"
    and s: "task_status L t = ''in_progress''"
    by (auto simp: lease_due_def typed_in_progress [OF assms(1)] split: option.splits)
  have holder: "py_str L (dict_get t ''claimed_by'' JNull) = holder_of L t"
    by (auto simp: holder_of_def dict_get_def split: option.splits json.splits)
  have holder': "py_str L (dict_get (AList.update ''attempts'' v t) ''claimed_by'' JNull)
                   = holder_of L t" for v
    using holder by (simp add: dict_get_def update_conv')
  show ?thesis
    using e s
    by (cases "map_of t ''error_log''"; cases "the (map_of t ''error_log'')")
       (simp_all add: reap_task_def parse_iso_lease [OF assms(2)] Let_def update_conv'
          delete_conv' dict_get_def [of "AList.update _ _ _" "''error_log''"]
          error_log_of_def holder' timeout_message_def typed_attempts [OF assms(1)]
          reaped_def)
qed

text \<open>
  For a typed task list without a lease out of range, \<^verbatim>\<open>reap_stale_leases\<close> returns, its
  flag tells whether some lease was due, the tasks whose lease was due are failed, with
  their attempts plus one, one timeout message naming the holder at the end of the
  \<^verbatim>\<open>error_log\<close>, and without \<^verbatim>\<open>claimed_by\<close>, \<^verbatim>\<open>lease_expires_at\<close> and \<^verbatim>\<open>claimed_at\<close>; every
  other task is as it was.
\<close>

lemma reap_in_range:
  assumes "\<forall>t \<in> set ts. well_typed t \<and> \<not> lease_out_of_range L t"
  shows "fst (reap_stale_leases L ts now) = Inr (\<exists>t \<in> set ts. lease_due L now t)
    \<and> length (snd (reap_stale_leases L ts now)) = length ts
    \<and> (\<forall>i < length ts.
          (lease_due L now (ts ! i) \<longrightarrow>
             map_of (snd (reap_stale_leases L ts now) ! i) = reaped L (ts ! i))
          \<and> (\<not> lease_due L now (ts ! i) \<longrightarrow>
                snd (reap_stale_leases L ts now) ! i = ts ! i))"
  using assms
proof (induction ts)
  case Nil
  then show ?case by simp
next
  case (Cons t ts)
  then have typed: "well_typed t" and inside: "\<not> lease_out_of_range L t"
    and rest: "\<forall>t \<in> set ts. well_typed t \<and> \<not> lease_out_of_range L t"
    by simp_all
  note IH = Cons.IH [OF rest]
  obtain cs ts' where r: "reap_stale_leases L ts now = (Inr cs, ts')"
    using IH by (cases "reap_stale_leases L ts now") auto
  from IH r have flag: "cs = (\<exists>t \<in> set ts. lease_due L now t)"
    and len: "length ts' = length ts"
    and each: "\<And>i. i < length ts \<Longrightarrow>
          (lease_due L now (ts ! i) \<longrightarrow> map_of (ts' ! i) = reaped L (ts ! i))
          \<and> (\<not> lease_due L now (ts ! i) \<longrightarrow> ts' ! i = ts ! i)"
    by simp_all
  obtain t' c where t': "reap_task L now t = Inr (t', c)" and c: "c = lease_due L now t"
    and head: "(lease_due L now t \<longrightarrow> map_of t' = reaped L t)
               \<and> (\<not> lease_due L now t \<longrightarrow> t' = t)"
  proof (cases "lease_due L now t")
    case True
    then show ?thesis
      using reap_task_due [OF typed inside, of now] that by blast
  next
    case False
    then have "reap_task L now t = Inr (t, False)"
      using typed inside by (rule reap_task_not_due [rotated 2])
    with False show ?thesis
      using that by blast
  qed
  have run: "reap_stale_leases L (t # ts) now = (Inr (c \<or> cs), t' # ts')"
    by (simp add: t' r)
  have "(lease_due L now ((t # ts) ! i) \<longrightarrow> map_of ((t' # ts') ! i) = reaped L ((t # ts) ! i))
          \<and> (\<not> lease_due L now ((t # ts) ! i) \<longrightarrow> (t' # ts') ! i = (t # ts) ! i)"
    if "i < length (t # ts)" for i
  proof (cases i)
    case 0
    then show ?thesis
      using head by simp
  next
    case (Suc j)
    with that have "j < length ts" by simp
    then show ?thesis
      using each [of j] unfolding Suc by simp
  qed
  then show ?case
    unfolding run fst_conv snd_conv using c flag len by auto
qed

subsection \<open>A lease out of range\<close>

text \<open>The exception that leaves \<^verbatim>\<open>reap_stale_leases\<close> is \<^verbatim>\<open>OverflowError\<close>, for a task in
  progress whose lease is out of range.\<close>

lemma reap_task_raises:
  "reap_task L now t = Inl err \<Longrightarrow>
     err = OverflowError \<and> task_status L t = ''in_progress'' \<and> lease_out_of_range L t"
  using parse_iso_raises [of L t]
  by (auto simp: reap_task_def Let_def split: if_splits sum.splits option.splits)

lemma reap_raises:
  "fst (reap_stale_leases L ts now) = Inl err \<Longrightarrow>
     err = OverflowError
     \<and> (\<exists>t \<in> set ts. task_status L t = ''in_progress'' \<and> lease_out_of_range L t)"
proof (induction ts)
  case Nil
  then show ?case by simp
next
  case (Cons t ts)
  show ?case
  proof (cases "reap_task L now t")
    case (Inl e)
    with Cons.prems have "e = err" by simp
    with Inl show ?thesis using reap_task_raises [of L now t err] by simp
  next
    case (Inr r)
    with Cons.prems have "fst (reap_stale_leases L ts now) = Inl err"
      by (auto split: prod.splits sum.splits)
    then show ?thesis using Cons.IH by simp
  qed
qed

subsection \<open>The examples\<close>

lemma example_strip:
  "str_strip example_lib ''2024-01-01T00:00:00Z'' = ''2024-01-01T00:00:00Z''"
  "str_strip example_lib ''2030-01-01T00:00:00Z'' = ''2030-01-01T00:00:00Z''"
  "str_strip example_lib ''0001-01-01T00:00:00+01:00'' = ''0001-01-01T00:00:00+01:00''"
  "str_strip example_lib ''soon'' = ''soon''"
  by (simp_all add: example_lib_def ascii_strip_def ascii_space_def)

lemma example_fromisoformat:
  "fromisoformat example_lib ''2024-01-01T00:00:00+00:00'' = Some (1704067200000000, Some 0)"
  "fromisoformat example_lib ''2030-01-01T00:00:00+00:00'' = Some (1893456000000000, Some 0)"
  "fromisoformat example_lib ''0001-01-01T00:00:00+01:00''
     = Some (- 62135596800000000, Some 3600000000)"
  "fromisoformat example_lib ''soon'' = None"
  by (simp_all add: example_lib_def example_parser_def)

lemma example_parse_iso:
  "parse_iso example_lib (JStr ''2024-01-01T00:00:00Z'') = Inr (Some 1704067200000000)"
  "parse_iso example_lib (JStr ''2030-01-01T00:00:00Z'') = Inr (Some 1893456000000000)"
  "parse_iso example_lib (JStr ''0001-01-01T00:00:00+01:00'') = Inl OverflowError"
  "parse_iso example_lib (JStr ''soon'') = Inr None"
  "parse_iso example_lib JNull = Inr None"
  by (simp_all add: parse_iso_def example_strip example_fromisoformat datetime_min_def
        datetime_max_def)

lemma example_reap_task:
  "reap_task example_lib lease_now lease_expired_task = Inr (lease_reaped_task, True)"
  "reap_task example_lib lease_now lease_future_task = Inr (lease_future_task, False)"
  "reap_task example_lib lease_now lease_garbled_task = Inr (lease_garbled_task, False)"
  "reap_task example_lib lease_now lease_absent_task = Inr (lease_absent_task, False)"
  "reap_task example_lib lease_now lease_idle_task = Inr (lease_idle_task, False)"
  "reap_task example_lib lease_now lease_reaped_task = Inr (lease_reaped_task, False)"
  "reap_task example_lib lease_now lease_overflow_task = Inl OverflowError"
  by (simp_all add: reap_task_def task_status_def task_attempts_def dict_get_def py_or_def
        example_parse_iso lease_now_def lease_expired_task_def lease_reaped_task_def
        lease_future_task_def lease_garbled_task_def lease_absent_task_def lease_idle_task_def
        lease_overflow_task_def)

lemma example_lease_end:
  "lease_end example_lib lease_overflow_task = Some (- 62135600400000000)"
  "lease_end example_lib lease_expired_task = Some 1704067200000000"
  "lease_end example_lib lease_future_task = Some 1893456000000000"
  "lease_end example_lib lease_garbled_task = None"
  "lease_end example_lib lease_absent_task = None"
  by (simp_all add: lease_end_def example_strip example_fromisoformat lease_overflow_task_def
        lease_expired_task_def lease_future_task_def lease_garbled_task_def
        lease_absent_task_def)

text \<open>
  Claim C3 fails on the code. The task \<open>lease_overflow_task\<close> is in progress and its
  \<^verbatim>\<open>lease_expires_at\<close> is present, is a timestamp for \<^verbatim>\<open>fromisoformat\<close>, and lies before
  \<open>now\<close>; the claim has it failed and every other task left as it was. But \<^verbatim>\<open>parse_iso\<close>
  converts the reading to UTC outside its \<^verbatim>\<open>try\<close>, the conversion raises
  \<^verbatim>\<open>OverflowError\<close>, and the exception leaves \<^verbatim>\<open>reap_stale_leases\<close>: no task is failed and
  no flag is returned. On tasks without such a lease the examples go as the claim says:
  the task with the expired lease is failed, with attempts 2, the timeout message naming
  its holder after the entry its \<^verbatim>\<open>error_log\<close> had, and without its three lease fields;
  the tasks with a lease in the future, with a lease that is no timestamp, with no lease,
  and the pending task are as they were.
\<close>

theorem reap_raises_out_of_range:
  "map_of lease_overflow_task ''status'' = Some (JStr ''in_progress'')
   \<and> map_of lease_overflow_task ''lease_expires_at'' = Some (JStr ''0001-01-01T00:00:00+01:00'')
   \<and> fromisoformat example_lib ''0001-01-01T00:00:00+01:00''
        = Some (- 62135596800000000, Some 3600000000)
   \<and> lease_end example_lib lease_overflow_task = Some (- 62135600400000000)
   \<and> lease_due example_lib lease_now lease_overflow_task
   \<and> reap_stale_leases example_lib [lease_overflow_task] lease_now
        = (Inl OverflowError, [lease_overflow_task])
   \<and> reap_stale_leases example_lib
        [lease_future_task, lease_overflow_task, lease_expired_task] lease_now
        = (Inl OverflowError, [lease_future_task, lease_overflow_task, lease_expired_task])
   \<and> lease_due example_lib lease_now lease_expired_task
   \<and> \<not> lease_due example_lib lease_now lease_future_task
   \<and> \<not> lease_due example_lib lease_now lease_garbled_task
   \<and> \<not> lease_due example_lib lease_now lease_absent_task
   \<and> \<not> lease_due example_lib lease_now lease_idle_task
   \<and> reap_stale_leases example_lib
        [lease_expired_task, lease_future_task, lease_garbled_task, lease_absent_task,
         lease_idle_task] lease_now
        = (Inr True,
           [lease_reaped_task, lease_future_task, lease_garbled_task, lease_absent_task,
            lease_idle_task])
   \<and> reap_stale_leases example_lib
        [lease_future_task, lease_garbled_task, lease_absent_task, lease_idle_task] lease_now
        = (Inr False,
           [lease_future_task, lease_garbled_task, lease_absent_task, lease_idle_task])"
proof -
  have fields: "map_of lease_overflow_task ''status'' = Some (JStr ''in_progress'')"
      "map_of lease_overflow_task ''lease_expires_at''
         = Some (JStr ''0001-01-01T00:00:00+01:00'')"
      "map_of lease_expired_task ''status'' = Some (JStr ''in_progress'')"
      "map_of lease_idle_task ''status'' \<noteq> Some (JStr ''in_progress'')"
    by (simp_all add: lease_overflow_task_def lease_expired_task_def lease_idle_task_def)
  have due: "lease_due example_lib lease_now lease_overflow_task"
      "lease_due example_lib lease_now lease_expired_task"
      "\<not> lease_due example_lib lease_now lease_future_task"
      "\<not> lease_due example_lib lease_now lease_garbled_task"
      "\<not> lease_due example_lib lease_now lease_absent_task"
      "\<not> lease_due example_lib lease_now lease_idle_task"
    using fields by (simp_all add: lease_due_def example_lease_end lease_now_def)
  have runs: "reap_stale_leases example_lib [lease_overflow_task] lease_now
        = (Inl OverflowError, [lease_overflow_task])"
      "reap_stale_leases example_lib
        [lease_future_task, lease_overflow_task, lease_expired_task] lease_now
        = (Inl OverflowError, [lease_future_task, lease_overflow_task, lease_expired_task])"
      "reap_stale_leases example_lib
        [lease_expired_task, lease_future_task, lease_garbled_task, lease_absent_task,
         lease_idle_task] lease_now
        = (Inr True,
           [lease_reaped_task, lease_future_task, lease_garbled_task, lease_absent_task,
            lease_idle_task])"
      "reap_stale_leases example_lib
        [lease_future_task, lease_garbled_task, lease_absent_task, lease_idle_task] lease_now
        = (Inr False,
           [lease_future_task, lease_garbled_task, lease_absent_task, lease_idle_task])"
    by (simp_all add: example_reap_task)
  from fields(1,2) example_fromisoformat(3) example_lease_end(1) due runs
  show ?thesis by blast
qed

subsection \<open>Reaping twice\<close>

text \<open>A task that an iteration has visited is not changed by another one.\<close>

lemma reap_task_settled:
  assumes "reap_task L now t = Inr (t', c)"
  shows "reap_task L now t' = Inr (t', False)"
proof (cases c)
  case True
  with assms have "map_of t' ''status'' = Some (JStr ''failed'')"
    by (auto simp: reap_task_def Let_def update_conv' delete_conv'
             split: if_splits sum.splits option.splits json.splits)
  then show ?thesis
    by (simp add: reap_task_def task_status_def dict_get_def)
next
  case False
  with assms have "t' = t"
    by (auto simp: reap_task_def Let_def split: if_splits sum.splits option.splits)
  with assms False show ?thesis by simp
qed

text \<open>A second pass over the tasks as the first pass left them changes no task; it
  returns \<^verbatim>\<open>False\<close> when the first pass returned, and raises what the first pass raised.\<close>

lemma reap_twice:
  "reap_stale_leases L (snd (reap_stale_leases L ts now)) now
     = ((case fst (reap_stale_leases L ts now) of
           Inl err \<Rightarrow> Inl err
         | Inr changed \<Rightarrow> Inr False),
        snd (reap_stale_leases L ts now))"
proof (induction ts)
  case Nil
  then show ?case by simp
next
  case (Cons t ts)
  show ?case
  proof (cases "reap_task L now t")
    case (Inl err)
    then show ?thesis by simp
  next
    case (Inr r)
    obtain t' c where r: "r = (t', c)" by (cases r) auto
    have again: "reap_task L now t' = Inr (t', False)"
      using Inr r by (intro reap_task_settled [of L now t t' c]) simp
    obtain out ts' where rest: "reap_stale_leases L ts now = (out, ts')"
      by (cases "reap_stale_leases L ts now") auto
    with Cons.IH have IH: "reap_stale_leases L ts' now
        = ((case out of Inl err \<Rightarrow> Inl err | Inr changed \<Rightarrow> Inr False), ts')"
      by simp
    show ?thesis
      using Inr r again rest IH by (cases out) simp_all
  qed
qed

text \<open>
  Claim C9 fails on the code, by the defect of claim C3. A second pass of
  \<^verbatim>\<open>reap_stale_leases\<close> never changes a task, and it returns \<^verbatim>\<open>changed = False\<close> whenever
  the first pass returned; but on a list that holds a task in progress with a lease out
  of range the first pass raises \<^verbatim>\<open>OverflowError\<close>, after it has failed the tasks before
  that one, and the second pass over the list as the first pass left it raises again
  where the claim has it report no change.
\<close>

theorem reap_twice_raises:
  "reap_stale_leases L (snd (reap_stale_leases L ts now)) now
     = ((case fst (reap_stale_leases L ts now) of
           Inl err \<Rightarrow> Inl err
         | Inr changed \<Rightarrow> Inr False),
        snd (reap_stale_leases L ts now))
   \<and> reap_stale_leases example_lib [lease_expired_task, lease_overflow_task] lease_now
       = (Inl OverflowError, [lease_reaped_task, lease_overflow_task])
   \<and> reap_stale_leases example_lib [lease_reaped_task, lease_overflow_task] lease_now
       = (Inl OverflowError, [lease_reaped_task, lease_overflow_task])
   \<and> reap_stale_leases example_lib [lease_expired_task, lease_future_task] lease_now
       = (Inr True, [lease_reaped_task, lease_future_task])
   \<and> reap_stale_leases example_lib [lease_reaped_task, lease_future_task] lease_now
       = (Inr False, [lease_reaped_task, lease_future_task])"
proof -
  have runs: "reap_stale_leases example_lib [lease_expired_task, lease_overflow_task] lease_now
       = (Inl OverflowError, [lease_reaped_task, lease_overflow_task])"
      "reap_stale_leases example_lib [lease_reaped_task, lease_overflow_task] lease_now
       = (Inl OverflowError, [lease_reaped_task, lease_overflow_task])"
      "reap_stale_leases example_lib [lease_expired_task, lease_future_task] lease_now
       = (Inr True, [lease_reaped_task, lease_future_task])"
      "reap_stale_leases example_lib [lease_reaped_task, lease_future_task] lease_now
       = (Inr False, [lease_reaped_task, lease_future_task])"
    by (simp_all add: example_reap_task)
  from reap_twice [of L ts now] runs show ?thesis by blast
qed

section \<open>Loading the task document\<close>

lemma parse_tasks_cases:
  "parse_tasks state =
     (case dict_get state ''tasks'' JNull of
        JList xs \<Rightarrow> Inr (dicts_of xs)
      | v \<Rightarrow> if truthy v then Inl ValueError else Inr [])"
  by (simp add: parse_tasks_def py_or_def split: json.splits pyfloat.splits)

lemma example_document_text: "read_text example_files example_document = Inr ''[]''"
  by (simp add: read_text_def stat_def node_at_def example_files_def example_document_def)

text \<open>
  Claim C8, as stated, fails: a document whose \<^verbatim>\<open>tasks\<close> field is the string
  \<^verbatim>\<open>not a list\<close> makes \<^verbatim>\<open>parse_tasks\<close> raise \<^verbatim>\<open>ValueError\<close>, and a document whose top
  level is a list makes \<^verbatim>\<open>load_json\<close> raise \<^verbatim>\<open>ValueError\<close>; neither returns an empty
  task list.
\<close>

theorem load_parse_raises:
  "parse_tasks [(''tasks'', JStr ''not a list'')] = Inl ValueError
   \<and> parse_tasks [(''tasks'', JStr ''not a list'')] \<noteq> Inr []
   \<and> read_text example_files example_document = Inr ''[]''
   \<and> json_loads example_lib ''[]'' = Inr (JList [])
   \<and> load_json example_lib example_files example_document = Inl ValueError"
  by (simp add: parse_tasks_def py_or_def dict_get_def load_json_def example_document_text
        example_lib_def example_loads_def example_stdin_def)

text \<open>
  Claim C8, amended. Both functions fail hard on structurally invalid content.
  \<^verbatim>\<open>parse_tasks\<close> raises \<^verbatim>\<open>ValueError\<close>, and nothing else, exactly when the \<^verbatim>\<open>tasks\<close>
  field holds a truthy value that is not a list; for a list it returns the object entries
  of the list in order, and for an absent or falsy field the empty list; so it returns
  the empty list exactly when the field is absent, falsy, or a list without an object
  entry. \<^verbatim>\<open>load_json\<close> returns exactly the objects that the file decodes to; it raises
  \<^verbatim>\<open>ValueError\<close> when the file decodes to a value that is not an object, and lets through
  what opening the file raises and what decoding raises (in Python the decoding errors
  are \<^verbatim>\<open>ValueError\<close>s as well).
\<close>

theorem load_parse_errors:
  "(parse_tasks state = Inl ValueError \<longleftrightarrow>
      truthy (dict_get state ''tasks'' JNull)
      \<and> (\<forall>xs. dict_get state ''tasks'' JNull \<noteq> JList xs))
   \<and> (\<forall>e. parse_tasks state = Inl e \<longrightarrow> e = ValueError)
   \<and> (\<not> truthy (dict_get state ''tasks'' JNull) \<longrightarrow> parse_tasks state = Inr [])
   \<and> (\<forall>xs. dict_get state ''tasks'' JNull = JList xs \<longrightarrow> parse_tasks state = Inr (dicts_of xs))
   \<and> (parse_tasks state = Inr [] \<longleftrightarrow>
        \<not> truthy (dict_get state ''tasks'' JNull)
        \<or> (\<exists>xs. dict_get state ''tasks'' JNull = JList xs \<and> dicts_of xs = []))
   \<and> (\<forall>d. load_json L files p = Inr d \<longleftrightarrow>
          (\<exists>body. read_text files p = Inr body \<and> json_loads L body = Inr (JDict d)))
   \<and> (\<forall>body v. read_text files p = Inr body \<and> json_loads L body = Inr v
          \<and> (\<forall>d. v \<noteq> JDict d) \<longrightarrow> load_json L files p = Inl ValueError)
   \<and> (\<forall>body e. read_text files p = Inr body \<and> json_loads L body = Inl e \<longrightarrow>
          load_json L files p = Inl e)
   \<and> (\<forall>e. read_text files p = Inl e \<longrightarrow> load_json L files p = Inl e)
   \<and> (\<forall>e. load_json L files p = Inl e \<and> \<not> is_ValueError e \<longrightarrow>
          read_text files p = Inl e
          \<or> (\<exists>body. read_text files p = Inr body \<and> json_loads L body = Inl e))"
proof -
  let ?v = "dict_get state ''tasks'' JNull"
  have raises: "parse_tasks state = Inl ValueError \<longleftrightarrow> truthy ?v \<and> (\<forall>xs. ?v \<noteq> JList xs)"
    by (cases ?v) (simp_all add: parse_tasks_cases)
  have only: "\<forall>e. parse_tasks state = Inl e \<longrightarrow> e = ValueError"
    by (cases ?v) (auto simp: parse_tasks_cases)
  have falsy: "\<not> truthy ?v \<longrightarrow> parse_tasks state = Inr []"
    by (cases ?v) (auto simp: parse_tasks_cases)
  have listed: "\<forall>xs. ?v = JList xs \<longrightarrow> parse_tasks state = Inr (dicts_of xs)"
    by (simp add: parse_tasks_cases)
  have empty: "parse_tasks state = Inr [] \<longleftrightarrow>
        \<not> truthy ?v \<or> (\<exists>xs. ?v = JList xs \<and> dicts_of xs = [])"
    by (cases ?v) (auto simp: parse_tasks_cases)
  have returns: "\<forall>d. load_json L files p = Inr d \<longleftrightarrow>
          (\<exists>body. read_text files p = Inr body \<and> json_loads L body = Inr (JDict d))"
    by (auto simp: load_json_def split: sum.splits json.splits)
  have top: "\<forall>body v. read_text files p = Inr body \<and> json_loads L body = Inr v
          \<and> (\<forall>d. v \<noteq> JDict d) \<longrightarrow> load_json L files p = Inl ValueError"
    by (auto simp: load_json_def split: sum.splits json.splits)
  have decoding: "\<forall>body e. read_text files p = Inr body \<and> json_loads L body = Inl e \<longrightarrow>
          load_json L files p = Inl e"
    by (auto simp: load_json_def)
  have unread: "\<forall>e. read_text files p = Inl e \<longrightarrow> load_json L files p = Inl e"
    by (auto simp: load_json_def)
  have others: "\<forall>e. load_json L files p = Inl e \<and> \<not> is_ValueError e \<longrightarrow>
          read_text files p = Inl e
          \<or> (\<exists>body. read_text files p = Inr body \<and> json_loads L body = Inl e)"
    by (auto simp: load_json_def is_ValueError_def split: sum.splits json.splits)
  from raises only falsy listed empty returns top decoding unread others
  show ?thesis by blast
qed

theorem load_parse_errors_witness:
  "\<not> truthy (dict_get [(''tasks'', JStr [])] ''tasks'' JNull)
   \<and> parse_tasks [(''tasks'', JStr [])] = Inr []
   \<and> dict_get [(''tasks'', JList [JInt 7, JDict scenario_failed])] ''tasks'' JNull
       = JList [JInt 7, JDict scenario_failed]
   \<and> parse_tasks [(''tasks'', JList [JInt 7, JDict scenario_failed])] = Inr [scenario_failed]
   \<and> dict_get [(''tasks'', JList [JInt 7, JStr ''x''])] ''tasks'' JNull
       = JList [JInt 7, JStr ''x'']
   \<and> truthy (JList [JInt 7, JStr ''x''])
   \<and> dicts_of [JInt 7, JStr ''x''] = []
   \<and> parse_tasks [(''tasks'', JList [JInt 7, JStr ''x''])] = Inr []
   \<and> truthy (dict_get [(''tasks'', JInt 1)] ''tasks'' JNull)
   \<and> parse_tasks [(''tasks'', JInt 1)] = Inl ValueError
   \<and> read_text example_files example_document = Inr ''[]''
   \<and> json_loads example_lib ''[]'' = Inr (JList [])
   \<and> load_json example_lib example_files example_document = Inl ValueError
   \<and> read_text example_files [''proj'', ''absent.json''] = Inl FileNotFoundError
   \<and> load_json example_lib example_files [''proj'', ''absent.json''] = Inl FileNotFoundError
   \<and> read_text example_files [''proj'', ''broken.json''] = Inr ''{''
   \<and> json_loads example_lib ''{'' = Inl JSONDecodeError
   \<and> is_ValueError JSONDecodeError
   \<and> load_json example_lib example_files [''proj'', ''broken.json''] = Inl JSONDecodeError"
proof -
  have broken: "read_text example_files [''proj'', ''broken.json''] = Inr ''{''"
      "json_loads example_lib ''{'' = Inl JSONDecodeError" "is_ValueError JSONDecodeError"
    by (simp_all add: read_text_def stat_def node_at_def example_files_def example_document_def
          example_lib_def example_loads_def example_stdin_def is_ValueError_def)
  from load_parse_errors [of "[]" example_lib example_files "[''proj'', ''broken.json'']"] broken
  have undecoded: "load_json example_lib example_files [''proj'', ''broken.json'']
                     = Inl JSONDecodeError"
    by blast
  have d: "read_text example_files example_document = Inr ''[]''"
    "json_loads example_lib ''[]'' = Inr (JList [])" "\<forall>d. JList [] \<noteq> JDict d"
    by (simp_all add: example_document_text example_lib_def example_loads_def example_stdin_def)
  from load_parse_errors [of "[]" example_lib example_files example_document] d
  have top: "load_json example_lib example_files example_document = Inl ValueError"
    by blast
  have gone: "read_text example_files [''proj'', ''absent.json''] = Inl FileNotFoundError"
    by (simp add: read_text_def stat_def node_at_def example_files_def example_document_def)
  from load_parse_errors [of "[]" example_lib example_files "[''proj'', ''absent.json'']"] gone
  have missing: "load_json example_lib example_files [''proj'', ''absent.json'']
                   = Inl FileNotFoundError"
    by blast
  have a: "\<not> truthy (dict_get [(''tasks'', JStr [])] ''tasks'' JNull)"
    by (simp add: dict_get_def)
  have b: "dict_get [(''tasks'', JList [JInt 7, JDict scenario_failed])] ''tasks'' JNull
       = JList [JInt 7, JDict scenario_failed]"
    by (simp add: dict_get_def)
  have c: "truthy (dict_get [(''tasks'', JInt 1)] ''tasks'' JNull)"
    "\<forall>xs. dict_get [(''tasks'', JInt 1)] ''tasks'' JNull \<noteq> JList xs"
    by (simp_all add: dict_get_def)
  have e: "dict_get [(''tasks'', JList [JInt 7, JStr ''x''])] ''tasks'' JNull
       = JList [JInt 7, JStr ''x'']"
    "truthy (JList [JInt 7, JStr ''x''])" "dicts_of [JInt 7, JStr ''x''] = []"
    by (simp_all add: dict_get_def)
  from load_parse_errors [of "[(''tasks'', JStr [])]" example_lib example_files
         example_document] a
  have "parse_tasks [(''tasks'', JStr [])] = Inr []" by blast
  moreover
  from load_parse_errors [of "[(''tasks'', JList [JInt 7, JDict scenario_failed])]"
         example_lib example_files example_document] b
  have "parse_tasks [(''tasks'', JList [JInt 7, JDict scenario_failed])]
          = Inr (dicts_of [JInt 7, JDict scenario_failed])" by blast
  moreover
  from load_parse_errors [of "[(''tasks'', JList [JInt 7, JStr ''x''])]"
         example_lib example_files example_document] e
  have "parse_tasks [(''tasks'', JList [JInt 7, JStr ''x''])] = Inr []" by blast
  moreover
  from load_parse_errors [of "[(''tasks'', JInt 1)]" example_lib example_files
         example_document] c
  have "parse_tasks [(''tasks'', JInt 1)] = Inl ValueError" by blast
  ultimately show ?thesis using a b c d e top gone missing broken undecoded by simp
qed

section \<open>Saving the task document\<close>

subsection \<open>Resolving a path\<close>

lemma os_walk_append:
  "os_walk files cur (cs @ ds) =
     (case os_walk files cur cs of Inl err \<Rightarrow> Inl err | Inr q \<Rightarrow> os_walk files q ds)"
  by (induction cs arbitrary: cur) (auto split: option.splits node.splits sum.splits)

lemma os_walk_snoc:
  "os_walk files cur (cs @ [c]) =
     (case os_walk files cur cs of
        Inl err \<Rightarrow> Inl err
      | Inr d \<Rightarrow>
          (case node_at files d of
             None \<Rightarrow> Inl FileNotFoundError
           | Some (File _) \<Rightarrow> Inl NotADirectoryError
           | Some Dir \<Rightarrow> Inr (if c = ''..'' then butlast d else d @ [c])))"
  by (simp add: os_walk_append split: sum.splits option.splits node.splits)

text \<open>A path that resolves still resolves, to the same place, when no directory is
  removed.\<close>

lemma os_walk_mono:
  assumes "os_walk files cur cs = Inr q"
    and "\<And>z. node_at files z = Some Dir \<Longrightarrow> node_at files' z = Some Dir"
  shows "os_walk files' cur cs = Inr q"
  using assms(1)
proof (induction cs arbitrary: cur)
  case Nil
  then show ?case by simp
next
  case (Cons c cs)
  from Cons.prems have here: "node_at files cur = Some Dir"
    by (auto split: option.splits node.splits)
  then have there: "node_at files' cur = Some Dir"
    by (rule assms(2))
  from Cons.prems here show ?case
    by (auto simp: there intro: Cons.IH split: if_splits)
qed

text \<open>Every directory above the place that a path resolves to has been entered.\<close>

lemma os_walk_checked:
  assumes "os_walk files cur cs = Inr q"
    and "\<forall>k < length cur. node_at files (take k cur) = Some Dir"
  shows "\<forall>k < length q. node_at files (take k q) = Some Dir"
  using assms
proof (induction cs arbitrary: cur)
  case Nil
  then show ?case by simp
next
  case (Cons c cs)
  from Cons.prems(1) have here: "node_at files cur = Some Dir"
    by (auto split: option.splits node.splits)
  show ?case
  proof (cases "c = ''..''")
    case True
    with Cons.prems(1) here have walk: "os_walk files (butlast cur) cs = Inr q"
      by simp
    have "\<forall>k < length (butlast cur). node_at files (take k (butlast cur)) = Some Dir"
      using Cons.prems(2) by (simp add: take_butlast)
    with walk show ?thesis by (rule Cons.IH)
  next
    case False
    with Cons.prems(1) here have walk: "os_walk files (cur @ [c]) cs = Inr q"
      by simp
    have "\<forall>k < length (cur @ [c]). node_at files (take k (cur @ [c])) = Some Dir"
      using Cons.prems(2) here by (auto simp: less_Suc_eq)
    with walk show ?thesis by (rule Cons.IH)
  qed
qed

text \<open>A path that ends in \<^verbatim>\<open>..\<close> resolves to a directory.\<close>

lemma os_walk_parent:
  assumes "os_walk files [] (cs @ [''..'']) = Inr q"
  shows "node_at files q = Some Dir"
proof -
  from assms obtain d where d: "os_walk files [] cs = Inr d" and q: "q = butlast d"
    by (auto simp: os_walk_snoc split: sum.splits option.splits node.splits)
  have checked: "\<forall>k < length d. node_at files (take k d) = Some Dir"
    using d by (rule os_walk_checked) simp
  show ?thesis
  proof (cases "d = []")
    case True
    then show ?thesis by (simp add: q node_at_def)
  next
    case False
    then have "length d - 1 < length d" by simp
    with checked have "node_at files (take (length d - 1) d) = Some Dir" by blast
    then show ?thesis by (simp add: q butlast_conv_take)
  qed
qed

subsection \<open>A save that returns\<close>

lemma atomic_write_returns:
  assumes ok: "fst (atomic_write_json L files p data) = Inr ()"
  shows "\<exists>previous. read_text files p = Inr previous
     \<and> read_text (snd (atomic_write_json L files p data))
         (copy_target files (butlast p @ [last p @ ''.bak'']) (last p)) = Inr previous
     \<and> read_text (snd (atomic_write_json L files p data)) p
         = Inr (json_dumps L (JDict data) @ [CHR 0x0A])"
proof -
  let ?new = "json_dumps L (JDict data) @ [CHR 0x0A]"
  from ok have name: "p \<noteq> []"
    by (auto simp: atomic_write_json_def with_suffix_def)
  from ok name obtain previous where previous: "read_text files p = Inr previous"
    by (cases "read_text files p") (auto simp: atomic_write_json_def with_suffix_def)
  then obtain pq where walk_p: "os_walk files [] p = Inr pq"
    and at_p: "node_at files pq = Some (File previous)"
    by (auto simp: read_text_def stat_def split: sum.splits option.splits node.splits)
  define x where "x = last p"
  define pre where "pre = butlast p"
  define bak where "bak = pre @ [x @ ''.bak'']"
  define tmp where "tmp = pre @ [x @ ''.tmp'']"
  define ct where "ct = copy_target files bak x"
  have p: "p = pre @ [x]"
    using name by (simp add: pre_def x_def)
  have x: "x \<noteq> ''..''"
  proof
    assume "x = ''..''"
    with walk_p p have "node_at files pq = Some Dir"
      using os_walk_parent [of files pre pq] by simp
    with at_p show False by simp
  qed
  from walk_p x obtain d where d: "os_walk files [] pre = Inr d"
    and at_d: "node_at files d = Some Dir" and pq: "pq = d @ [x]"
    unfolding p by (auto simp: os_walk_snoc split: sum.splits option.splits node.splits)
  have step: "os_walk files' [] (pre @ [y]) = Inr (d @ [y])"
    if "y \<noteq> ''..''" and "\<And>z. node_at files z = Some Dir \<Longrightarrow> node_at files' z = Some Dir"
    for y files'
  proof -
    have "os_walk files' [] pre = Inr d"
      using d that(2) by (rule os_walk_mono)
    moreover have "node_at files' d = Some Dir"
      using at_d by (rule that(2))
    ultimately show ?thesis
      using that(1) by (simp add: os_walk_snoc)
  qed
  have names: "x @ ''.bak'' \<noteq> ''..''" "x @ ''.tmp'' \<noteq> ''..''"
  proof -
    have "length (x @ ''.bak'') \<noteq> length ''..''" "length (x @ ''.tmp'') \<noteq> length ''..''"
      by simp_all
    then show "x @ ''.bak'' \<noteq> ''..''" "x @ ''.tmp'' \<noteq> ''..''"
      by fastforce+
  qed
  have walk_bak: "os_walk files [] bak = Inr (d @ [x @ ''.bak''])"
    unfolding bak_def using names(1) by (rule step)
  obtain bq where bq: "os_walk files [] ct = Inr bq"
    and apart: "bq \<noteq> pq" "bq \<noteq> d @ [x @ ''.tmp'']" "bq \<noteq> []"
  proof (cases "\<exists>q. stat files bak = Inr (q, Dir)")
    case True
    then have at_bak: "node_at files (d @ [x @ ''.bak'']) = Some Dir"
      using walk_bak by (auto simp: stat_def split: option.splits)
    from True have "ct = bak @ [x]"
      by (auto simp: ct_def copy_target_def)
    then have "os_walk files [] ct = Inr (d @ [x @ ''.bak''] @ [x])"
      using walk_bak at_bak x by (simp add: os_walk_snoc)
    then show ?thesis
      by (rule that) (simp_all add: pq)
  next
    case False
    then have "ct = bak"
      by (auto simp: ct_def copy_target_def split: sum.splits node.splits)
    then have "os_walk files [] ct = Inr (d @ [x @ ''.bak''])"
      using walk_bak by simp
    then show ?thesis
      by (rule that) (simp_all add: pq)
  qed
  let ?tq = "d @ [x @ ''.tmp'']"
  have awj: "atomic_write_json L files p data =
      (case write_text files ct previous of
         (Inl err, files1) \<Rightarrow> (Inl err, files1)
       | (Inr _, files1) \<Rightarrow>
           (case write_text files1 tmp ?new of
              (Inl err, files2) \<Rightarrow> (Inl err, files2)
            | (Inr _, files2) \<Rightarrow> os_replace files2 tmp p))"
    unfolding ct_def bak_def tmp_def pre_def x_def using name previous
    by (simp add: atomic_write_json_def with_suffix_def)
  have w1: "write_text files ct previous =
      (if node_at files bq = Some Dir then (Inl IsADirectoryError, files)
       else (Inr (), files(bq \<mapsto> File previous)))"
    by (simp add: write_text_def bq split: option.splits node.splits)
  have free1: "node_at files bq \<noteq> Some Dir"
  proof
    assume "node_at files bq = Some Dir"
    with ok show False by (simp add: awj w1)
  qed
  define files1 where "files1 = files(bq \<mapsto> File previous)"
  have r1: "write_text files ct previous = (Inr (), files1)"
    using free1 by (simp add: w1 files1_def)
  have keep1: "node_at files1 z = Some Dir" if "node_at files z = Some Dir" for z
    using that free1 by (auto simp: files1_def node_at_def split: if_splits)
  have walk_tmp1: "os_walk files1 [] tmp = Inr ?tq"
    unfolding tmp_def using names(2) keep1 by (rule step)
  have w2: "write_text files1 tmp ?new =
      (if node_at files1 ?tq = Some Dir then (Inl IsADirectoryError, files1)
       else (Inr (), files1(?tq \<mapsto> File ?new)))"
    by (simp add: write_text_def walk_tmp1 split: option.splits node.splits)
  have free2: "node_at files1 ?tq \<noteq> Some Dir"
  proof
    assume "node_at files1 ?tq = Some Dir"
    then have "write_text files1 tmp ?new = (Inl IsADirectoryError, files1)"
      by (simp add: w2)
    with ok show False by (simp add: awj r1)
  qed
  define files2 where "files2 = files1(?tq \<mapsto> File ?new)"
  have r2: "write_text files1 tmp ?new = (Inr (), files2)"
    using free2 by (simp add: w2 files2_def)
  have keep2: "node_at files2 z = Some Dir" if "node_at files z = Some Dir" for z
    using keep1 [OF that] free2 by (auto simp: files2_def node_at_def split: if_splits)
  have walk_tmp2: "os_walk files2 [] tmp = Inr ?tq"
    unfolding tmp_def using names(2) keep2 by (rule step)
  have walk_p2: "os_walk files2 [] p = Inr pq"
    unfolding p pq using x keep2 by (rule step)
  have at_tmp2: "node_at files2 ?tq = Some (File ?new)"
    by (simp add: files2_def node_at_def)
  have at_p2: "node_at files2 pq = Some (File previous)"
    using at_p apart(1,2) by (auto simp: files2_def files1_def node_at_def pq)
  define files3 where "files3 = (files2(?tq := None))(pq \<mapsto> File ?new)"
  have move: "os_replace files2 tmp p = (Inr (), files3)"
    by (simp add: os_replace_def stat_def walk_tmp2 at_tmp2 walk_p2 at_p2 files3_def)
  have result: "atomic_write_json L files p data = (Inr (), files3)"
    by (simp add: awj r1 r2 move)
  have free_tmp: "node_at files ?tq \<noteq> Some Dir"
    using free2 apart(2) by (auto simp: files1_def node_at_def)
  have keep3: "node_at files3 z = Some Dir" if "node_at files z = Some Dir" for z
    using that free1 free_tmp at_p
    by (auto simp: files3_def files2_def files1_def node_at_def pq split: if_splits)
  have "os_walk files3 [] ct = Inr bq"
    using bq keep3 by (rule os_walk_mono)
  moreover have "node_at files3 bq = Some (File previous)"
    using apart by (simp add: files3_def files2_def files1_def node_at_def pq)
  ultimately have backup: "read_text files3 ct = Inr previous"
    by (simp add: read_text_def stat_def)
  have "os_walk files3 [] p = Inr pq"
    using walk_p keep3 by (rule os_walk_mono)
  moreover have "node_at files3 pq = Some (File ?new)"
    by (simp add: files3_def node_at_def pq)
  ultimately have saved: "read_text files3 p = Inr ?new"
    by (simp add: read_text_def stat_def)
  from previous backup saved show ?thesis
    by (simp add: result ct_def bak_def pre_def x_def)
qed

text \<open>
  Claim C10. \<^verbatim>\<open>atomic_write_json\<close> can only replace a document: for a path with no
  file it raises and writes nothing, since the copy of the previous file comes first. A
  path that has a name raises what resolving it raises, \<^verbatim>\<open>FileNotFoundError\<close> when
  nothing is there, and \<^verbatim>\<open>IsADirectoryError\<close> when it is a directory. Whenever the save
  returns, the file existed before, its previous text is in the backup and the new text
  is in place.
\<close>

theorem atomic_write_needs_existing:
  "(\<not> is_file files p \<longrightarrow>
      (\<exists>err. atomic_write_json L files p data = (Inl err, files)))
   \<and> (p \<noteq> [] \<longrightarrow>
        (\<forall>err. stat files p = Inl err \<longrightarrow>
           atomic_write_json L files p data = (Inl err, files)))
   \<and> (p \<noteq> [] \<and> (\<exists>q. os_walk files [] p = Inr q \<and> node_at files q = None) \<longrightarrow>
        atomic_write_json L files p data = (Inl FileNotFoundError, files))
   \<and> (p \<noteq> [] \<and> (\<exists>q. stat files p = Inr (q, Dir)) \<longrightarrow>
        atomic_write_json L files p data = (Inl IsADirectoryError, files))
   \<and> (fst (atomic_write_json L files p data) = Inr () \<longrightarrow>
        (\<exists>previous. read_text files p = Inr previous
           \<and> read_text (snd (atomic_write_json L files p data))
               (copy_target files (butlast p @ [last p @ ''.bak'']) (last p)) = Inr previous
           \<and> read_text (snd (atomic_write_json L files p data)) p
               = Inr (json_dumps L (JDict data) @ [CHR 0x0A])))"
proof -
  have missing: "\<not> is_file files p \<longrightarrow>
      (\<exists>err. atomic_write_json L files p data = (Inl err, files))"
    by (auto simp: atomic_write_json_def with_suffix_def is_file_def read_text_def
             split: sum.splits prod.splits node.splits)
  have unread: "p \<noteq> [] \<longrightarrow>
        (\<forall>err. stat files p = Inl err \<longrightarrow>
           atomic_write_json L files p data = (Inl err, files))"
    by (simp add: atomic_write_json_def with_suffix_def read_text_def)
  have vacant: "p \<noteq> [] \<and> (\<exists>q. os_walk files [] p = Inr q \<and> node_at files q = None) \<longrightarrow>
        atomic_write_json L files p data = (Inl FileNotFoundError, files)"
    by (auto simp: atomic_write_json_def with_suffix_def read_text_def stat_def)
  have directory: "p \<noteq> [] \<and> (\<exists>q. stat files p = Inr (q, Dir)) \<longrightarrow>
        atomic_write_json L files p data = (Inl IsADirectoryError, files)"
    by (auto simp: atomic_write_json_def with_suffix_def read_text_def)
  have returns: "fst (atomic_write_json L files p data) = Inr () \<longrightarrow>
        (\<exists>previous. read_text files p = Inr previous
           \<and> read_text (snd (atomic_write_json L files p data))
               (copy_target files (butlast p @ [last p @ ''.bak'']) (last p)) = Inr previous
           \<and> read_text (snd (atomic_write_json L files p data)) p
               = Inr (json_dumps L (JDict data) @ [CHR 0x0A]))"
    using atomic_write_returns [of L files p data] by blast
  from missing unread vacant directory returns show ?thesis by blast
qed

theorem atomic_write_needs_existing_witness:
  "\<not> is_file example_files [''proj'', ''new.json'']
   \<and> os_walk example_files [] [''proj'', ''new.json''] = Inr [''proj'', ''new.json'']
   \<and> node_at example_files [''proj'', ''new.json''] = None
   \<and> stat example_files [''proj'', ''new.json''] = Inl FileNotFoundError
   \<and> atomic_write_json example_lib example_files [''proj'', ''new.json''] []
       = (Inl FileNotFoundError, example_files)
   \<and> stat example_files [''nowhere'', ''new.json''] = Inl FileNotFoundError
   \<and> atomic_write_json example_lib example_files [''nowhere'', ''new.json''] []
       = (Inl FileNotFoundError, example_files)
   \<and> stat example_files [''proj'', ''harness-tasks.json'', ''new.json'']
       = Inl NotADirectoryError
   \<and> atomic_write_json example_lib example_files
        [''proj'', ''harness-tasks.json'', ''new.json''] []
       = (Inl NotADirectoryError, example_files)
   \<and> stat example_files [''proj''] = Inr ([''proj''], Dir)
   \<and> atomic_write_json example_lib example_files [''proj''] []
       = (Inl IsADirectoryError, example_files)
   \<and> is_file example_files example_document
   \<and> fst (atomic_write_json example_lib example_files example_document []) = Inr ()
   \<and> read_text example_files example_document = Inr ''[]''
   \<and> read_text (snd (atomic_write_json example_lib example_files example_document []))
        [''proj'', ''harness-tasks.json.bak''] = Inr ''[]''
   \<and> read_text (snd (atomic_write_json example_lib example_files example_document []))
        example_document = Inr (''{}'' @ [CHR 0x0A])"
proof -
  have absent: "\<not> is_file example_files [''proj'', ''new.json'']"
      "stat example_files [''proj'', ''new.json''] = Inl FileNotFoundError"
      "[''proj'', ''new.json''] \<noteq> []"
      "os_walk example_files [] [''proj'', ''new.json''] = Inr [''proj'', ''new.json'']"
      "node_at example_files [''proj'', ''new.json''] = None"
    by (simp_all add: is_file_def stat_def node_at_def example_files_def example_document_def)
  have astray: "stat example_files [''nowhere'', ''new.json''] = Inl FileNotFoundError"
      "[''nowhere'', ''new.json''] \<noteq> []"
      "stat example_files [''proj'', ''harness-tasks.json'', ''new.json'']
         = Inl NotADirectoryError"
      "[''proj'', ''harness-tasks.json'', ''new.json''] \<noteq> []"
    by (simp_all add: stat_def node_at_def example_files_def example_document_def)
  from atomic_write_needs_existing [of example_files "[''nowhere'', ''new.json'']" example_lib "[]"]
    astray(1,2)
  have lost: "atomic_write_json example_lib example_files [''nowhere'', ''new.json''] []
       = (Inl FileNotFoundError, example_files)"
    by blast
  from atomic_write_needs_existing
         [of example_files "[''proj'', ''harness-tasks.json'', ''new.json'']" example_lib "[]"]
    astray(3,4)
  have below: "atomic_write_json example_lib example_files
        [''proj'', ''harness-tasks.json'', ''new.json''] []
       = (Inl NotADirectoryError, example_files)"
    by blast
  have directory: "stat example_files [''proj''] = Inr ([''proj''], Dir)" "[''proj''] \<noteq> []"
    by (simp_all add: stat_def node_at_def example_files_def example_document_def)
  have present: "is_file example_files example_document"
    by (simp add: is_file_def stat_def node_at_def example_files_def example_document_def)
  have target: "copy_target example_files
                  (butlast example_document @ [last example_document @ ''.bak''])
                  (last example_document)
                = [''proj'', ''harness-tasks.json.bak'']"
    by (simp add: copy_target_def stat_def node_at_def example_files_def example_document_def)
  have ok: "fst (atomic_write_json example_lib example_files example_document []) = Inr ()"
    by (simp add: atomic_write_json_def with_suffix_def copy_target_def read_text_def
          write_text_def os_replace_def stat_def node_at_def example_files_def
          example_document_def)
  have dumps: "json_dumps example_lib (JDict []) = ''{}''"
    by (simp add: example_lib_def)
  from atomic_write_needs_existing [of example_files "[''proj'', ''new.json'']" example_lib "[]"]
    absent
  have first: "atomic_write_json example_lib example_files [''proj'', ''new.json''] []
       = (Inl FileNotFoundError, example_files)"
    by blast
  from atomic_write_needs_existing [of example_files "[''proj'']" example_lib "[]"] directory
  have second: "atomic_write_json example_lib example_files [''proj''] []
       = (Inl IsADirectoryError, example_files)"
    by blast
  from atomic_write_needs_existing [of example_files example_document example_lib "[]"] ok
  have third: "\<exists>previous. read_text example_files example_document = Inr previous
           \<and> read_text (snd (atomic_write_json example_lib example_files example_document []))
               (copy_target example_files
                  (butlast example_document @ [last example_document @ ''.bak''])
                  (last example_document)) = Inr previous
           \<and> read_text (snd (atomic_write_json example_lib example_files example_document []))
               example_document = Inr (json_dumps example_lib (JDict []) @ [CHR 0x0A])"
    by blast
  from third have backup:
      "read_text (snd (atomic_write_json example_lib example_files example_document []))
         [''proj'', ''harness-tasks.json.bak''] = Inr ''[]''"
    and saved:
      "read_text (snd (atomic_write_json example_lib example_files example_document []))
         example_document = Inr (''{}'' @ [CHR 0x0A])"
    by (auto simp: target dumps example_document_text)
  from absent(1,2,4,5) first astray(1,3) lost below directory(1) second present ok
    example_document_text backup saved
  show ?thesis by blast
qed

section \<open>Properties of the safety valve\<close>

lemma valve_step_below:
  "consecutive_blocks v < threshold \<Longrightarrow> completed = last_completed_count v \<Longrightarrow>
     valve_step threshold reentrant completed Block v
       = (Block, v\<lparr>consecutive_blocks := consecutive_blocks v + 1\<rparr>)"
  by (simp add: valve_step_def)

lemma valve_run_blocks:
  "consecutive_blocks v + length invs \<le> threshold \<Longrightarrow>
   \<forall>inv \<in> set invs. fst (snd inv) = last_completed_count v \<and> snd (snd inv) = Block \<Longrightarrow>
     valve_run threshold invs v
       = (replicate (length invs) Block,
          v\<lparr>consecutive_blocks := consecutive_blocks v + length invs\<rparr>)"
proof (induction invs arbitrary: v)
  case Nil
  then show ?case by simp
next
  case (Cons inv invs)
  obtain reentrant completed otherwise where inv: "inv = (reentrant, completed, otherwise)"
    by (cases inv) auto
  from Cons.prems inv have here: "completed = last_completed_count v" "otherwise = Block"
    and below: "consecutive_blocks v < threshold"
    by auto
  let ?v' = "v\<lparr>consecutive_blocks := consecutive_blocks v + 1\<rparr>"
  have step: "valve_step threshold reentrant completed otherwise v = (Block, ?v')"
    using here below by (simp add: valve_step_below)
  have rest: "valve_run threshold invs ?v'
       = (replicate (length invs) Block,
          ?v'\<lparr>consecutive_blocks := consecutive_blocks ?v' + length invs\<rparr>)"
    using Cons.prems by (intro Cons.IH) auto
  show ?case
    using step rest by (simp add: inv)
qed

lemma valve_run_append:
  "valve_run threshold (xs @ ys) v =
     (let (ds, v') = valve_run threshold xs v;
          (es, v'') = valve_run threshold ys v'
      in (ds @ es, v''))"
  by (induction xs arbitrary: v) (auto simp: Let_def split: prod.splits)

text \<open>
  Claim C7. In a run of block decisions with a constant completed count, the counter of
  consecutive blocks goes up by one per block; once the counter has reached the threshold,
  an invocation that carries the re-entrancy signal is allowed, whatever the task logic
  decides (so after exactly \<open>threshold\<close> blocks from zero the next decision is allow); and
  a block decision issued after the completed count has increased sets the counter to 1
  and records the new count.
\<close>

theorem valve_safety:
  "(consecutive_blocks v + length invs \<le> threshold
      \<and> (\<forall>inv \<in> set invs. fst (snd inv) = last_completed_count v \<and> snd (snd inv) = Block)
      \<longrightarrow> valve_run threshold invs v
            = (replicate (length invs) Block,
               v\<lparr>consecutive_blocks := consecutive_blocks v + length invs\<rparr>))
   \<and> (consecutive_blocks v \<ge> threshold \<longrightarrow>
        valve_step threshold True completed otherwise v = (Allow, v))
   \<and> (consecutive_blocks v = 0 \<longrightarrow>
        fst (valve_run threshold
               (replicate threshold (reentrant, last_completed_count v, Block)
                @ [(True, completed, otherwise)]) v)
          = replicate threshold Block @ [Allow])
   \<and> (completed > last_completed_count v
        \<and> fst (valve_step threshold reentrant completed otherwise v) = Block
        \<longrightarrow> snd (valve_step threshold reentrant completed otherwise v)
              = \<lparr>consecutive_blocks = 1, last_completed_count = completed\<rparr>)"
proof -
  have run: "consecutive_blocks v + length invs \<le> threshold
      \<and> (\<forall>inv \<in> set invs. fst (snd inv) = last_completed_count v \<and> snd (snd inv) = Block)
      \<longrightarrow> valve_run threshold invs v
            = (replicate (length invs) Block,
               v\<lparr>consecutive_blocks := consecutive_blocks v + length invs\<rparr>)"
    using valve_run_blocks [of v invs threshold] by blast
  have escalated: "consecutive_blocks v \<ge> threshold \<longrightarrow>
        valve_step threshold True completed otherwise v = (Allow, v)"
    by (simp add: valve_step_def)
  have exactly: "consecutive_blocks v = 0 \<longrightarrow>
        fst (valve_run threshold
               (replicate threshold (reentrant, last_completed_count v, Block)
                @ [(True, completed, otherwise)]) v)
          = replicate threshold Block @ [Allow]"
  proof
    assume zero: "consecutive_blocks v = 0"
    let ?blocks = "replicate threshold (reentrant, last_completed_count v, Block)"
    have "valve_run threshold ?blocks v
            = (replicate (length ?blocks) Block,
               v\<lparr>consecutive_blocks := consecutive_blocks v + length ?blocks\<rparr>)"
      using zero by (intro valve_run_blocks) auto
    then have blocks: "valve_run threshold ?blocks v
            = (replicate threshold Block, v\<lparr>consecutive_blocks := threshold\<rparr>)"
      using zero by simp
    show "fst (valve_run threshold (?blocks @ [(True, completed, otherwise)]) v)
            = replicate threshold Block @ [Allow]"
      by (simp add: valve_run_append blocks valve_step_def)
  qed
  have reset: "completed > last_completed_count v
        \<and> fst (valve_step threshold reentrant completed otherwise v) = Block
        \<longrightarrow> snd (valve_step threshold reentrant completed otherwise v)
              = \<lparr>consecutive_blocks = 1, last_completed_count = completed\<rparr>"
    by (cases otherwise) (auto simp: valve_step_def)
  from run escalated exactly reset show ?thesis by blast
qed

theorem valve_safety_witness:
  "valve_run 10 [(True, 0, Block), (False, 0, Block)]
       \<lparr>consecutive_blocks = 2, last_completed_count = 0\<rparr>
     = ([Block, Block], \<lparr>consecutive_blocks = 4, last_completed_count = 0\<rparr>)
   \<and> valve_step 10 True 0 Block \<lparr>consecutive_blocks = 10, last_completed_count = 0\<rparr>
       = (Allow, \<lparr>consecutive_blocks = 10, last_completed_count = 0\<rparr>)
   \<and> fst (valve_run 3 (replicate 3 (True, 0, Block) @ [(True, 0, Block)])
            \<lparr>consecutive_blocks = 0, last_completed_count = 0\<rparr>)
       = [Block, Block, Block, Allow]
   \<and> fst (valve_step 10 True 1 Block \<lparr>consecutive_blocks = 7, last_completed_count = 0\<rparr>) = Block
   \<and> snd (valve_step 10 True 1 Block \<lparr>consecutive_blocks = 7, last_completed_count = 0\<rparr>)
       = \<lparr>consecutive_blocks = 1, last_completed_count = 1\<rparr>"
proof -
  have blocked: "fst (valve_step 10 True 1 Block
                        \<lparr>consecutive_blocks = 7, last_completed_count = 0\<rparr>) = Block"
    by (simp add: valve_step_def)
  from valve_safety [of "\<lparr>consecutive_blocks = 2, last_completed_count = 0\<rparr>"
         "[(True, 0, Block), (False, 0, Block)]" 10 0 Block True]
       valve_safety [of "\<lparr>consecutive_blocks = 10, last_completed_count = 0\<rparr>" "[]" 10 0 Block True]
       valve_safety [of "\<lparr>consecutive_blocks = 0, last_completed_count = 0\<rparr>" "[]" 3 0 Block True]
       valve_safety [of "\<lparr>consecutive_blocks = 7, last_completed_count = 0\<rparr>" "[]" 10 1 Block True]
       blocked
  show ?thesis by (simp add: numeral_3_eq_3)
qed

section \<open>Properties of the reflection hook\<close>

lemma join_head: "\<exists>rest. join sep (x # xs) = x @ rest"
  by (cases xs) simp_all

lemma reason_names_iteration: "sublist (str_int k @ ''/'' @ str_int m) (reflect_reason k m p)"
proof -
  obtain rest where "reflect_reason k m p
      = header_prefix @ (str_int k @ ''/'' @ str_int m) @ (header_suffix @ rest)"
    using join_head [of "[CHR 0x0A]" "header_prefix @ str_int k @ ''/'' @ str_int m @ header_suffix"]
    by (auto simp: reflect_reason_def)
  then show ?thesis
    unfolding sublist_def by blast
qed

text \<open>The guards that \<^verbatim>\<open>main\<close> does have: it prints only for a payload with a session id,
  when a state root is found and \<^verbatim>\<open>.harness-active\<close> is absent there.\<close>

lemma reflect_hook_guards:
  assumes "fst (main e L extract stdin files) = Inr (Some out)"
  shows "truthy (dict_get (read_payload L stdin) ''session_id'' (JStr []))
         \<and> (\<exists>harness_root.
               find_harness_root e files (read_payload L stdin) = Inr (Some harness_root)
               \<and> \<not> is_file files (harness_root @ [''.harness-active'']))"
  using assms
  by (auto simp: main_def Let_def split: if_splits sum.splits option.splits)

lemma example_read_payload: "read_payload example_lib example_stdin = example_payload"
proof -
  have "str_strip example_lib example_stdin \<noteq> []"
    by (simp add: example_lib_def ascii_strip_def ascii_space_def example_stdin_def)
  moreover have "json_loads example_lib example_stdin = Inr (JDict example_payload)"
    by (simp add: example_lib_def example_loads_def)
  ultimately show ?thesis
    by (simp add: read_payload_def)
qed

lemma example_is_file:
  "files [''proj''] = Some Dir \<Longrightarrow> name \<noteq> ''..'' \<Longrightarrow>
     is_file files [''proj'', name] \<longleftrightarrow> (\<exists>body. files [''proj'', name] = Some (File body))"
  by (auto simp: is_file_def stat_def node_at_def split: option.splits node.splits)

lemma example_root:
  assumes "files [''proj''] = Some Dir"
    and "files [''proj'', ''harness-tasks.json''] = Some (File body)"
  shows "find_harness_root example_env files example_payload = Inr (Some [''proj''])"
    and "find_harness_root example_disabled files example_payload = Inr (Some [''proj''])"
proof -
  have cwd: "dict_get example_payload ''cwd'' JNull = JStr ''/proj''"
    by (simp add: example_payload_def dict_get_def)
  have there: "parts e ''/proj'' = [''proj'']" for e
    by (simp add: parts_def names_def)
  have found: "is_file files ([''proj''] @ [''harness-tasks.json''])"
    using assms by (simp add: example_is_file)
  show "find_harness_root example_env files example_payload = Inr (Some [''proj''])"
    using found
    by (simp add: find_harness_root_def example_env_def cwd there resolve_def lineage_def)
  show "find_harness_root example_disabled files example_payload = Inr (Some [''proj''])"
    using found
    by (simp add: find_harness_root_def example_disabled_def cwd there resolve_def lineage_def)
qed

lemma example_counter_path:
  "counter_path example_env example_lib (JStr ''s1'') = [''tmp'', ''claude-reflect-s1'']"
  "counter_path example_disabled example_lib (JStr ''s1'') = [''tmp'', ''claude-reflect-s1'']"
  by (simp_all add: counter_path_def example_env_def example_disabled_def names_def)

lemma example_counter_file:
  assumes "files [''tmp''] = Some Dir"
  shows "read_text files [''tmp'', ''claude-reflect-s1'']
           = (case files [''tmp'', ''claude-reflect-s1''] of
                None \<Rightarrow> Inl FileNotFoundError
              | Some Dir \<Rightarrow> Inl IsADirectoryError
              | Some (File body) \<Rightarrow> Inr body)"
    and "files [''tmp'', ''claude-reflect-s1''] \<noteq> Some Dir \<Longrightarrow>
         write_text files [''tmp'', ''claude-reflect-s1''] body
           = (Inr (), files([''tmp'', ''claude-reflect-s1''] \<mapsto> File body))"
  using assms
  by (auto simp: read_text_def write_text_def stat_def node_at_def
           split: option.splits node.splits)

text \<open>One invocation in the example, on any filesystem where the task document exists,
  the active marker does not, and the counter of the session reads \<open>c\<close> below 5.\<close>

lemma example_block:
  assumes "files [''proj''] = Some Dir"
    and "files [''proj'', ''harness-tasks.json''] = Some (File body)"
    and "files [''proj'', ''.harness-active''] = None"
    and "files [''tmp''] = Some Dir"
    and "files [''tmp'', ''claude-reflect-s1''] \<noteq> Some Dir"
    and "read_counter example_env example_lib files (JStr ''s1'') = c"
    and "c < 5"
  shows "main example_env example_lib example_extract example_stdin files
           = (Inr (Some (block_decision (reflect_reason (c + 1) 5 []))),
              files([''tmp'', ''claude-reflect-s1''] \<mapsto> File (str_int (c + 1))))"
proof -
  have sid: "dict_get example_payload ''session_id'' (JStr []) = JStr ''s1''"
    by (simp add: example_payload_def dict_get_def)
  have last: "dict_get example_payload ''last_assistant_message'' (JStr []) = JStr []"
    by (simp add: example_payload_def dict_get_def)
  have env: "environ example_env ''REFLECT_MAX_ITERATIONS'' = None"
    by (simp add: example_env_def)
  have root: "find_harness_root example_env files example_payload = Inr (Some [''proj''])"
    using assms(1,2) by (rule example_root)
  have inactive: "\<not> is_file files ([''proj''] @ [''.harness-active''])"
    using assms(1,3) by (simp add: example_is_file)
  have written: "write_counter example_env example_lib files (JStr ''s1'') (c + 1)
                   = files([''tmp'', ''claude-reflect-s1''] \<mapsto> File (str_int (c + 1)))"
    using assms(4,5) example_counter_file(2) [of files "str_int (c + 1)"]
    by (simp add: write_counter_def example_counter_path)
  show ?thesis
    using assms(6,7) inactive
    by (simp add: main_def example_read_payload sid last root env written
          DEFAULT_MAX_ITERATIONS_def truncation_raises_def example_extract_def
          reflect_reason_def Let_def)
qed

lemma example_silent:
  assumes "files [''proj''] = Some Dir"
    and "files [''proj'', ''harness-tasks.json''] = Some (File body)"
    and "files [''proj'', ''.harness-active''] = None"
    and "read_counter example_env example_lib files (JStr ''s1'') = 5"
  shows "main example_env example_lib example_extract example_stdin files = (Inr None, files)"
proof -
  have sid: "dict_get example_payload ''session_id'' (JStr []) = JStr ''s1''"
    by (simp add: example_payload_def dict_get_def)
  have env: "environ example_env ''REFLECT_MAX_ITERATIONS'' = None"
    by (simp add: example_env_def)
  have root: "find_harness_root example_env files example_payload = Inr (Some [''proj''])"
    using assms(1,2) by (rule example_root)
  have inactive: "\<not> is_file files ([''proj''] @ [''.harness-active''])"
    using assms(1,3) by (simp add: example_is_file)
  show ?thesis
    using assms(4) inactive
    by (simp add: main_def example_read_payload sid root env DEFAULT_MAX_ITERATIONS_def Let_def)
qed

lemma example_counter_texts:
  "str_int 1 = ''1''" "str_int 2 = ''2''" "str_int 3 = ''3''" "str_int 4 = ''4''"
  "str_int 5 = ''5''"
  by code_simp+

lemma example_counter_absent:
  assumes "files [''tmp''] = Some Dir" and "files [''tmp'', ''claude-reflect-s1''] = None"
  shows "read_counter example_env example_lib files (JStr ''s1'') = 0"
  using assms example_counter_file(1) [of files]
  by (simp add: read_counter_def example_counter_path)

lemma example_int:
  "int_of_str example_lib ''0'' = Some 0" "int_of_str example_lib ''1'' = Some 1"
  "int_of_str example_lib ''2'' = Some 2" "int_of_str example_lib ''3'' = Some 3"
  "int_of_str example_lib ''4'' = Some 4" "int_of_str example_lib ''5'' = Some 5"
  by (simp_all add: example_lib_def ascii_int_def ascii_strip_def ascii_space_def
        ascii_digit_def)

lemma example_counter_reads:
  assumes "files [''tmp''] = Some Dir"
  shows
  "read_counter example_env example_lib
     (files([''tmp'', ''claude-reflect-s1''] \<mapsto> File ''1'')) (JStr ''s1'') = 1"
  "read_counter example_env example_lib
     (files([''tmp'', ''claude-reflect-s1''] \<mapsto> File ''2'')) (JStr ''s1'') = 2"
  "read_counter example_env example_lib
     (files([''tmp'', ''claude-reflect-s1''] \<mapsto> File ''3'')) (JStr ''s1'') = 3"
  "read_counter example_env example_lib
     (files([''tmp'', ''claude-reflect-s1''] \<mapsto> File ''4'')) (JStr ''s1'') = 4"
  "read_counter example_env example_lib
     (files([''tmp'', ''claude-reflect-s1''] \<mapsto> File ''5'')) (JStr ''s1'') = 5"
proof -
  have stripped: "str_strip example_lib ''1'' = ''1''" "str_strip example_lib ''2'' = ''2''"
      "str_strip example_lib ''3'' = ''3''" "str_strip example_lib ''4'' = ''4''"
      "str_strip example_lib ''5'' = ''5''"
    by (simp_all add: example_lib_def ascii_strip_def ascii_space_def)
  have stored: "read_text (files([''tmp'', ''claude-reflect-s1''] \<mapsto> File b))
                  [''tmp'', ''claude-reflect-s1''] = Inr b" for b
    using assms example_counter_file(1) [of "files([''tmp'', ''claude-reflect-s1''] \<mapsto> File b)"]
    by simp
  show
  "read_counter example_env example_lib
     (files([''tmp'', ''claude-reflect-s1''] \<mapsto> File ''1'')) (JStr ''s1'') = 1"
  "read_counter example_env example_lib
     (files([''tmp'', ''claude-reflect-s1''] \<mapsto> File ''2'')) (JStr ''s1'') = 2"
  "read_counter example_env example_lib
     (files([''tmp'', ''claude-reflect-s1''] \<mapsto> File ''3'')) (JStr ''s1'') = 3"
  "read_counter example_env example_lib
     (files([''tmp'', ''claude-reflect-s1''] \<mapsto> File ''4'')) (JStr ''s1'') = 4"
  "read_counter example_env example_lib
     (files([''tmp'', ''claude-reflect-s1''] \<mapsto> File ''5'')) (JStr ''s1'') = 5"
    by (simp_all add: read_counter_def example_counter_path stored stripped example_int)
qed

text \<open>
  Claim C5 fails on the code: \<^verbatim>\<open>main\<close> never looks at \<^verbatim>\<open>.harness-reflect\<close>. In the
  example, with a task document left by an earlier run, no active marker and no
  \<^verbatim>\<open>.harness-reflect\<close>, the first invocation of a session prints a block decision whose
  reason names iteration 1/5, where the claim has it print nothing.
\<close>

theorem reflect_hook_ignores_marker:
  "\<not> is_file stale_files reflect_marker
   \<and> is_file stale_files [''proj'', ''harness-tasks.json'']
   \<and> \<not> is_file stale_files [''proj'', ''.harness-active'']
   \<and> fst (main example_env example_lib example_extract example_stdin stale_files)
       = Inr (Some (block_decision (reflect_reason 1 5 [])))
   \<and> sublist ''1/5'' (reflect_reason 1 5 [])"
proof -
  have dir: "stale_files [''proj''] = Some Dir" "stale_files [''tmp''] = Some Dir"
    by (simp_all add: stale_files_def)
  have absent: "\<not> is_file stale_files reflect_marker"
      "is_file stale_files [''proj'', ''harness-tasks.json'']"
      "\<not> is_file stale_files [''proj'', ''.harness-active'']"
    by (simp_all add: reflect_marker_def example_is_file stale_files_def)
  have fresh: "stale_files [''tmp'', ''claude-reflect-s1''] = None"
    by (simp add: stale_files_def)
  have "main example_env example_lib example_extract example_stdin stale_files
          = (Inr (Some (block_decision (reflect_reason (0 + 1) 5 []))),
             stale_files([''tmp'', ''claude-reflect-s1''] \<mapsto> File (str_int (0 + 1))))"
    using dir fresh
    by (intro example_block [where body = "''{}''"])
       (simp_all add: stale_files_def example_counter_absent)
  then have blocks: "fst (main example_env example_lib example_extract example_stdin stale_files)
       = Inr (Some (block_decision (reflect_reason 1 5 [])))"
    by simp
  have names: "sublist ''1/5'' (reflect_reason 1 5 [])"
    using reason_names_iteration [of 1 5 "[]"] by (simp add: example_counter_texts)
  from absent blocks names show ?thesis by blast
qed

text \<open>
  Claim C6 holds on the code except for the marker. In the example, with the default
  maximum of 5 and \<^verbatim>\<open>.harness-reflect\<close> present, invocations 1 to 5 of the session print
  block decisions whose reasons name 1/5 to 5/5 and invocation 6 prints nothing, but
  \<^verbatim>\<open>.harness-reflect\<close> is still there afterwards; with a maximum of 0 the hook prints
  nothing.
\<close>

theorem reflect_hook_keeps_marker:
  "is_file drained_files reflect_marker
   \<and> fst (invocations 6 example_env example_lib example_extract example_stdin drained_files)
       = [Inr (Some (block_decision (reflect_reason 1 5 []))),
          Inr (Some (block_decision (reflect_reason 2 5 []))),
          Inr (Some (block_decision (reflect_reason 3 5 []))),
          Inr (Some (block_decision (reflect_reason 4 5 []))),
          Inr (Some (block_decision (reflect_reason 5 5 []))),
          Inr None]
   \<and> sublist ''1/5'' (reflect_reason 1 5 [])
   \<and> sublist ''2/5'' (reflect_reason 2 5 [])
   \<and> sublist ''3/5'' (reflect_reason 3 5 [])
   \<and> sublist ''4/5'' (reflect_reason 4 5 [])
   \<and> sublist ''5/5'' (reflect_reason 5 5 [])
   \<and> is_file (snd (invocations 6 example_env example_lib example_extract example_stdin
                      drained_files)) reflect_marker
   \<and> main example_disabled example_lib example_extract example_stdin drained_files
       = (Inr None, drained_files)"
proof -
  let ?counter = "[''tmp'', ''claude-reflect-s1'']"
  let ?run = "\<lambda>files. main example_env example_lib example_extract example_stdin files"
  have dir: "(drained_files(?counter \<mapsto> entry)) [''proj''] = Some Dir"
      "drained_files [''proj''] = Some Dir"
      "(drained_files(?counter \<mapsto> entry)) [''tmp''] = Some Dir"
      "drained_files [''tmp''] = Some Dir" for entry
    by (simp_all add: drained_files_def stale_files_def reflect_marker_def)
  have doc: "(drained_files(?counter \<mapsto> entry)) [''proj'', ''harness-tasks.json'']
               = Some (File ''{}'')"
      "drained_files [''proj'', ''harness-tasks.json''] = Some (File ''{}'')" for entry
    by (simp_all add: drained_files_def stale_files_def reflect_marker_def)
  have inactive: "(drained_files(?counter \<mapsto> entry)) [''proj'', ''.harness-active''] = None"
      "drained_files [''proj'', ''.harness-active''] = None" for entry
    by (simp_all add: drained_files_def stale_files_def reflect_marker_def)
  have fresh: "drained_files ?counter = None"
    by (simp add: drained_files_def stale_files_def reflect_marker_def)
  have plain: "(drained_files(?counter \<mapsto> File b)) ?counter \<noteq> Some Dir"
      "drained_files ?counter \<noteq> Some Dir" for b
    by (simp_all add: fresh)
  have s1: "?run drained_files
      = (Inr (Some (block_decision (reflect_reason 1 5 []))),
         drained_files(?counter \<mapsto> File ''1''))"
    using example_block [of drained_files "''{}''" 0] dir(2,4) doc(2) inactive(2) plain(2)
      example_counter_absent [of drained_files] fresh
    by (simp add: example_counter_texts)
  have s2: "?run (drained_files(?counter \<mapsto> File ''1''))
      = (Inr (Some (block_decision (reflect_reason 2 5 []))),
         drained_files(?counter \<mapsto> File ''2''))"
    using example_block [of "drained_files(?counter \<mapsto> File ''1'')" "''{}''" 1]
      dir(1,3) doc(1) inactive(1) plain(1) example_counter_reads(1) [of drained_files] dir(4)
    by (simp add: example_counter_texts)
  have s3: "?run (drained_files(?counter \<mapsto> File ''2''))
      = (Inr (Some (block_decision (reflect_reason 3 5 []))),
         drained_files(?counter \<mapsto> File ''3''))"
    using example_block [of "drained_files(?counter \<mapsto> File ''2'')" "''{}''" 2]
      dir(1,3) doc(1) inactive(1) plain(1) example_counter_reads(2) [of drained_files] dir(4)
    by (simp add: example_counter_texts)
  have s4: "?run (drained_files(?counter \<mapsto> File ''3''))
      = (Inr (Some (block_decision (reflect_reason 4 5 []))),
         drained_files(?counter \<mapsto> File ''4''))"
    using example_block [of "drained_files(?counter \<mapsto> File ''3'')" "''{}''" 3]
      dir(1,3) doc(1) inactive(1) plain(1) example_counter_reads(3) [of drained_files] dir(4)
    by (simp add: example_counter_texts)
  have s5: "?run (drained_files(?counter \<mapsto> File ''4''))
      = (Inr (Some (block_decision (reflect_reason 5 5 []))),
         drained_files(?counter \<mapsto> File ''5''))"
    using example_block [of "drained_files(?counter \<mapsto> File ''4'')" "''{}''" 4]
      dir(1,3) doc(1) inactive(1) plain(1) example_counter_reads(4) [of drained_files] dir(4)
    by (simp add: example_counter_texts)
  have s6: "?run (drained_files(?counter \<mapsto> File ''5''))
      = (Inr None, drained_files(?counter \<mapsto> File ''5''))"
    using example_silent [of "drained_files(?counter \<mapsto> File ''5'')" "''{}''"]
      dir(1) doc(1) inactive(1) example_counter_reads(5) [of drained_files] dir(4)
    by simp
  have run: "invocations 6 example_env example_lib example_extract example_stdin drained_files
      = ([Inr (Some (block_decision (reflect_reason 1 5 []))),
          Inr (Some (block_decision (reflect_reason 2 5 []))),
          Inr (Some (block_decision (reflect_reason 3 5 []))),
          Inr (Some (block_decision (reflect_reason 4 5 []))),
          Inr (Some (block_decision (reflect_reason 5 5 []))),
          Inr None],
         drained_files(?counter \<mapsto> File ''5''))"
    by (simp add: eval_nat_numeral s1 s2 s3 s4 s5 s6)
  have marker: "is_file drained_files reflect_marker"
    "is_file (drained_files(?counter \<mapsto> File ''5'')) reflect_marker"
    by (simp_all add: reflect_marker_def example_is_file drained_files_def stale_files_def)
  have names: "sublist ''1/5'' (reflect_reason 1 5 [])" "sublist ''2/5'' (reflect_reason 2 5 [])"
    "sublist ''3/5'' (reflect_reason 3 5 [])" "sublist ''4/5'' (reflect_reason 4 5 [])"
    "sublist ''5/5'' (reflect_reason 5 5 [])"
    using reason_names_iteration [of 1 5 "[]"] reason_names_iteration [of 2 5 "[]"]
      reason_names_iteration [of 3 5 "[]"] reason_names_iteration [of 4 5 "[]"]
      reason_names_iteration [of 5 5 "[]"]
    by (simp_all add: example_counter_texts)
  have sid: "dict_get example_payload ''session_id'' (JStr []) = JStr ''s1''"
    by (simp add: example_payload_def dict_get_def)
  have root: "find_harness_root example_disabled drained_files example_payload
                = Inr (Some [''proj''])"
    using dir(2) doc(2) by (rule example_root)
  have disabled: "main example_disabled example_lib example_extract example_stdin drained_files
       = (Inr None, drained_files)"
  proof -
    have env: "environ example_disabled ''REFLECT_MAX_ITERATIONS'' = Some ''0''"
      by (simp add: example_disabled_def)
    have quiet: "\<not> is_file drained_files ([''proj''] @ [''.harness-active''])"
      using dir(2) inactive(2) by (simp add: example_is_file)
    show ?thesis
      using quiet
      by (simp add: main_def example_read_payload sid root env example_int Let_def)
  qed
  from marker run names disabled show ?thesis by simp
qed

end
